theory Spec2Isabelle
  imports Complex_Main "HOL-Library.Char_ord" "HOL-Library.List_Lexorder" "HOL-Library.Multiset"
begin

section \<open>Strings\<close>

text \<open>
  JavaScript strings are modelled as \<^typ>\<open>string\<close>. \<open>String.prototype.startsWith\<close>
  and \<open>String.prototype.includes\<close> are the usual prefix and substring tests. The order
  on strings (used by \<open>Array.prototype.sort\<close> and \<open>URLSearchParams.sort\<close>) is the
  lexicographic order on character codes.
\<close>

fun startsWith :: "string \<Rightarrow> string \<Rightarrow> bool" where
  "startsWith s [] = True"
| "startsWith [] (p # ps) = False"
| "startsWith (c # cs) (p # ps) = (c = p \<and> startsWith cs ps)"

fun str_includes :: "string \<Rightarrow> string \<Rightarrow> bool" where
  "str_includes [] p = (p = [])"
| "str_includes (c # cs) p = (startsWith (c # cs) p \<or> str_includes cs p)"

fun join :: "string \<Rightarrow> string list \<Rightarrow> string" where
  "join sep [] = []"
| "join sep [x] = x"
| "join sep (x # y # ys) = x @ sep @ join sep (y # ys)"

definition lower_char :: "char \<Rightarrow> char" where
  "lower_char c =
     (if 65 \<le> (of_char c :: nat) \<and> (of_char c :: nat) \<le> 90
      then char_of ((of_char c :: nat) + 32) else c)"

definition toLowerCase :: "string \<Rightarrow> string" where
  "toLowerCase s = map lower_char s"

definition upper_char :: "char \<Rightarrow> char" where
  "upper_char c =
     (if 97 \<le> (of_char c :: nat) \<and> (of_char c :: nat) \<le> 122
      then char_of ((of_char c :: nat) - 32) else c)"

definition toUpperCase :: "string \<Rightarrow> string" where
  "toUpperCase s = map upper_char s"

definition digit_char :: "nat \<Rightarrow> char" where
  "digit_char d = char_of (48 + d)"

fun show_nat :: "nat \<Rightarrow> string" where
  "show_nat n = (if n < 10 then [digit_char n] else show_nat (n div 10) @ [digit_char (n mod 10)])"

declare show_nat.simps [simp del]

definition show_int :: "int \<Rightarrow> string" where
  "show_int i = (if i < 0 then CHR ''-'' # show_nat (nat (- i)) else show_nat (nat i))"

definition is_digit :: "char \<Rightarrow> bool" where
  "is_digit c = (48 \<le> (of_char c :: nat) \<and> (of_char c :: nat) \<le> 57)"

definition digits_val :: "string \<Rightarrow> int" where
  "digits_val s = foldl (\<lambda>a c. 10 * a + ((of_char c :: int) - 48)) 0 s"

section \<open>Numbers\<close>

text \<open>
  A JavaScript number is \<open>NaN\<close>, an infinity or a finite double, held here as the
  rational it denotes (the sign of zero is not kept: no operation of the program tells
  the two zeros apart). \<open>to_double\<close> rounds a rational to the nearest double, ties to
  the even significand, and to an infinity from \<open>2^1024 - 2^970\<close> on.
\<close>

datatype number = NaN | Fin rat | PosInf | NegInf

definition power_of :: "int \<Rightarrow> int \<Rightarrow> rat" where
  "power_of b e = (if 0 \<le> e then of_int (b ^ nat e) else 1 / of_int (b ^ nat (- e)))"

function bit_length :: "int \<Rightarrow> int" where
  "bit_length n = (if n \<le> 0 then 0 else 1 + bit_length (n div 2))"
  by pat_completeness auto

termination
  by (relation "measure nat") auto

declare bit_length.simps [simp del]

definition ilog2 :: "rat \<Rightarrow> int" where
  "ilog2 q =
     (case quotient_of q of
        (a, b) \<Rightarrow>
          let d = bit_length a - bit_length b
          in if power_of 2 d \<le> q then d else d - 1)"

definition round_half_even :: "rat \<Rightarrow> int" where
  "round_half_even x =
     (let f = \<lfloor>x\<rfloor>; r = x - of_int f
      in if r < 1 / 2 then f else if 1 / 2 < r then f + 1 else if even f then f else f + 1)"

definition to_double :: "rat \<Rightarrow> number" where
  "to_double q =
     (if q = 0 then Fin 0
      else
        let a = \<bar>q\<bar>;
            e = max (ilog2 a - 52) (- 1074);
            v = of_int (round_half_even (a / power_of 2 e)) * power_of 2 e
        in if power_of 2 1024 \<le> v then (if q < 0 then NegInf else PosInf)
           else Fin (if q < 0 then - v else v))"

text \<open>
  The conversion of a string to a number (the unary plus): white space around the
  literal is dropped; the empty string is 0; a literal is \<open>Infinity\<close> or decimal digits
  with an optional fraction and exponent, after an optional sign, or an unsigned binary,
  octal or hexadecimal integer; any other string is \<open>NaN\<close>. The strings are header
  values, whose characters have codes below 256.
\<close>

definition is_str_ws :: "char \<Rightarrow> bool" where
  "is_str_ws c = ((of_char c :: nat) \<in> set [9, 10, 11, 12, 13, 32, 160])"

definition str_trim :: "string \<Rightarrow> string" where
  "str_trim s = rev (dropWhile is_str_ws (rev (dropWhile is_str_ws s)))"

definition digit_of :: "char \<Rightarrow> int option" where
  "digit_of c =
     (let n = (of_char c :: int)
      in if 48 \<le> n \<and> n \<le> 57 then Some (n - 48)
         else if 97 \<le> n \<and> n \<le> 102 then Some (n - 87)
         else if 65 \<le> n \<and> n \<le> 70 then Some (n - 55)
         else None)"

definition radix_val :: "int \<Rightarrow> string \<Rightarrow> rat option" where
  "radix_val b s =
     (if s \<noteq> [] \<and> list_all (\<lambda>c. case digit_of c of None \<Rightarrow> False | Some d \<Rightarrow> d < b) s
      then Some (of_int (foldl (\<lambda>a c. b * a + the (digit_of c)) 0 s))
      else None)"

definition signed_integer :: "string \<Rightarrow> int option" where
  "signed_integer s =
     (let (neg, ds) = (case s of
                         c # cs \<Rightarrow> if c = CHR ''-'' then (True, cs)
                                   else if c = CHR ''+'' then (False, cs) else (False, s)
                       | [] \<Rightarrow> (False, s))
      in if ds \<noteq> [] \<and> list_all is_digit ds
         then Some (if neg then - digits_val ds else digits_val ds) else None)"

definition unsigned_decimal :: "string \<Rightarrow> rat option" where
  "unsigned_decimal s =
     (let ip = takeWhile is_digit s;
          r1 = dropWhile is_digit s;
          dot = (r1 \<noteq> [] \<and> hd r1 = CHR ''.'');
          fp = (if dot then takeWhile is_digit (tl r1) else []);
          r2 = (if dot then dropWhile is_digit (tl r1) else r1);
          ex = (if r2 = [] then Some 0
                else if hd r2 = CHR ''e'' \<or> hd r2 = CHR ''E'' then signed_integer (tl r2)
                else None)
      in if ip = [] \<and> fp = [] then None
         else case ex of
                None \<Rightarrow> None
              | Some x \<Rightarrow> Some (of_int (digits_val (ip @ fp)) * power_of 10 (x - int (length fp))))"

definition string_to_number :: "string \<Rightarrow> number" where
  "string_to_number s0 =
     (let s = str_trim s0
      in if s = [] then Fin 0
         else if startsWith s ''0x'' \<or> startsWith s ''0X''
           then (case radix_val 16 (drop 2 s) of None \<Rightarrow> NaN | Some q \<Rightarrow> to_double q)
         else if startsWith s ''0o'' \<or> startsWith s ''0O''
           then (case radix_val 8 (drop 2 s) of None \<Rightarrow> NaN | Some q \<Rightarrow> to_double q)
         else if startsWith s ''0b'' \<or> startsWith s ''0B''
           then (case radix_val 2 (drop 2 s) of None \<Rightarrow> NaN | Some q \<Rightarrow> to_double q)
         else
           let neg = (hd s = CHR ''-'');
               u = (if hd s = CHR ''-'' \<or> hd s = CHR ''+'' then tl s else s)
           in if u = ''Infinity'' then (if neg then NegInf else PosInf)
              else case unsigned_decimal u of
                     None \<Rightarrow> NaN
                   | Some q \<Rightarrow> to_double (if neg then - q else q))"

text \<open>The unary plus on what \<open>Headers.get\<close> returns: \<open>null\<close> gives 0.\<close>

definition to_number :: "string option \<Rightarrow> number" where
  "to_number x = (case x of None \<Rightarrow> Fin 0 | Some s \<Rightarrow> string_to_number s)"

text \<open>An integer read as a number, and the comparisons \<open><=\<close> and \<open><\<close>, which are false
  when a side is \<open>NaN\<close>.\<close>

definition number_of_int :: "int \<Rightarrow> number" where
  "number_of_int i = to_double (of_int i)"

fun le_number :: "number \<Rightarrow> number \<Rightarrow> bool" where
  "le_number NaN y = False"
| "le_number x NaN = False"
| "le_number NegInf y = True"
| "le_number x PosInf = True"
| "le_number PosInf y = False"
| "le_number x NegInf = False"
| "le_number (Fin a) (Fin b) = (a \<le> b)"

fun lt_number :: "number \<Rightarrow> number \<Rightarrow> bool" where
  "lt_number NaN y = False"
| "lt_number x NaN = False"
| "lt_number PosInf y = False"
| "lt_number x NegInf = False"
| "lt_number NegInf y = True"
| "lt_number x PosInf = True"
| "lt_number (Fin a) (Fin b) = (a < b)"

text \<open>\<open>new Date(t).toISOString()\<close> throws a \<open>RangeError\<close> unless \<open>t\<close> is finite and within
  8.64e15 ms of the epoch.\<close>

fun date_valid :: "number \<Rightarrow> bool" where
  "date_valid (Fin t) = (\<bar>t\<bar> \<le> 8640000000000000)"
| "date_valid _ = False"

section \<open>JSON values and \<open>JSON.stringify\<close>\<close>

text \<open>
  A parsed JSON value. An object is the list of its own properties in JavaScript property
  order (integer-like keys first, in ascending numeric order, then the other keys in
  creation order). A number is given by the text that \<open>JSON.stringify\<close> prints for it,
  such as \<open>1000\<close>, \<open>2.5\<close> or \<open>1e+21\<close>.
\<close>

datatype json =
    JNull
  | JBool bool
  | JNum string
  | JStr string
  | JArr "json list"
  | JObj "(string \<times> json) list"

text \<open>Quoting a string: the double quote, the backslash and the control characters are
  escaped.\<close>

definition hex_digit :: "nat \<Rightarrow> char" where
  "hex_digit d = (if d < 10 then char_of (48 + d) else char_of (87 + d))"

definition quote_char :: "char \<Rightarrow> string" where
  "quote_char c =
     (if c = CHR 0x22 then [CHR 0x5C, CHR 0x22]
      else if c = CHR 0x5C then [CHR 0x5C, CHR 0x5C]
      else if c = CHR 0x08 then [CHR 0x5C, CHR ''b'']
      else if c = CHR 0x09 then [CHR 0x5C, CHR ''t'']
      else if c = CHR 0x0A then [CHR 0x5C, CHR ''n'']
      else if c = CHR 0x0C then [CHR 0x5C, CHR ''f'']
      else if c = CHR 0x0D then [CHR 0x5C, CHR ''r'']
      else if (of_char c :: nat) < 32
      then [CHR 0x5C, CHR ''u'', CHR ''0'', CHR ''0'',
            hex_digit ((of_char c :: nat) div 16), hex_digit ((of_char c :: nat) mod 16)]
      else [c])"

definition quote :: "string \<Rightarrow> string" where
  "quote s = CHR 0x22 # concat (map quote_char s) @ [CHR 0x22]"

fun stringify :: "json \<Rightarrow> string"
  and stringify_items :: "json list \<Rightarrow> string list"
  and stringify_props :: "(string \<times> json) list \<Rightarrow> string list" where
  "stringify JNull = ''null''"
| "stringify (JBool b) = (if b then ''true'' else ''false'')"
| "stringify (JNum n) = n"
| "stringify (JStr s) = quote s"
| "stringify (JArr xs) = ''['' @ join '','' (stringify_items xs) @ '']''"
| "stringify (JObj kvs) = ''{'' @ join '','' (stringify_props kvs) @ ''}''"
| "stringify_items [] = []"
| "stringify_items (x # xs) = stringify x # stringify_items xs"
| "stringify_props [] = []"
| "stringify_props ((k, v) # kvs) = (quote k @ '':'' @ stringify v) # stringify_props kvs"

text \<open>
  Property creation on an ordinary object: an existing property keeps its place; a new
  integer-like key goes to its numeric position among the integer-like keys; any other
  new key goes to the end.
\<close>

definition array_index :: "string \<Rightarrow> int option" where
  "array_index k =
     (if k \<noteq> [] \<and> list_all is_digit k \<and> (k = ''0'' \<or> hd k \<noteq> CHR ''0'')
         \<and> digits_val k < 4294967295
      then Some (digits_val k) else None)"

definition key_before :: "string \<Rightarrow> string \<Rightarrow> bool" where
  "key_before k k' =
     (case array_index k of
        None \<Rightarrow> False
      | Some i \<Rightarrow> (case array_index k' of None \<Rightarrow> True | Some j \<Rightarrow> i < j))"

fun obj_define :: "string \<Rightarrow> json \<Rightarrow> (string \<times> json) list \<Rightarrow> (string \<times> json) list" where
  "obj_define k v [] = [(k, v)]"
| "obj_define k v ((k', v') # rest) =
     (if k = k' then (k, v) # rest
      else if key_before k k' then (k, v) # (k', v') # rest
      else (k', v') # obj_define k v rest)"

text \<open>The assignment \<open>acc[key] = value\<close> on an object created by \<open>{}\<close>: for the key
  \<open>__proto__\<close> it calls the setter of the prototype and creates no property.\<close>

definition obj_put :: "string \<Rightarrow> json \<Rightarrow> (string \<times> json) list \<Rightarrow> (string \<times> json) list" where
  "obj_put k v obj = (if k = ''__proto__'' then obj else obj_define k v obj)"

text \<open>\<open>Object.keys\<close> of a parsed value that is an object or an array, with the values.\<close>

fun own_entries :: "json \<Rightarrow> (string \<times> json) list" where
  "own_entries (JObj kvs) = kvs"
| "own_entries (JArr xs) = zip (map show_nat [0 ..< length xs]) xs"
| "own_entries _ = []"

section \<open>URLs, query parameters and headers\<close>

record URL =
  origin :: string
  pathname :: string
  searchParams :: "(string \<times> string) list"

text \<open>\<open>URLSearchParams.set\<close>: the first pair of that name takes the value and the others
  of that name are removed; without such a pair, the pair is appended.\<close>

fun sp_set :: "string \<Rightarrow> string \<Rightarrow> (string \<times> string) list \<Rightarrow> (string \<times> string) list" where
  "sp_set n v [] = [(n, v)]"
| "sp_set n v ((k, w) # ps) =
     (if k = n then (n, v) # filter (\<lambda>p. fst p \<noteq> n) ps else (k, w) # sp_set n v ps)"

text \<open>\<open>URLSearchParams.sort\<close>: a stable sort by name.\<close>

definition sp_sort :: "(string \<times> string) list \<Rightarrow> (string \<times> string) list" where
  "sp_sort ps = sort_key fst ps"

text \<open>\<open>URLSearchParams.delete\<close>: removes every pair of that name.\<close>

definition sp_delete :: "string \<Rightarrow> (string \<times> string) list \<Rightarrow> (string \<times> string) list" where
  "sp_delete n ps = filter (\<lambda>p. fst p \<noteq> n) ps"

text \<open>\<open>Headers.get\<close> for a valid header name: names are compared without case; the
  values of all headers of that name are joined by a comma and a space; \<open>null\<close> when
  there is none. The callers check the name.\<close>

definition headers_get :: "(string \<times> string) list \<Rightarrow> string \<Rightarrow> string option" where
  "headers_get hs n =
     (let vs = map snd (filter (\<lambda>p. toLowerCase (fst p) = toLowerCase n) hs)
      in if vs = [] then None else Some (join '', '' vs))"

text \<open>A header name is a nonempty string of token characters; \<open>Headers.get\<close> throws a
  \<open>TypeError\<close> for any other name.\<close>

definition is_tchar :: "char \<Rightarrow> bool" where
  "is_tchar c =
     (let n = (of_char c :: nat)
      in n \<in> set [33, 35, 36, 37, 38, 39, 42, 43, 45, 46, 94, 95, 96, 124, 126]
         \<or> (48 \<le> n \<and> n \<le> 57) \<or> (65 \<le> n \<and> n \<le> 90) \<or> (97 \<le> n \<and> n \<le> 122))"

definition valid_header_name :: "string \<Rightarrow> bool" where
  "valid_header_name n = (n \<noteq> [] \<and> list_all is_tchar n)"

text \<open>The value of \<open>x || d\<close> for a string or \<open>null\<close> \<open>x\<close>.\<close>

definition or_else :: "string option \<Rightarrow> string \<Rightarrow> string" where
  "or_else x d = (case x of None \<Rightarrow> d | Some v \<Rightarrow> if v = [] then d else v)"

record request =
  "method" :: string
  url :: URL
  headers :: "(string \<times> string) list"
  body :: "string option"

datatype error =
    BodyUsed
  | NetworkError string
  | Timeout string
  | StoreError string
  | PutNonGet
  | PutPartialContent
  | PutVaryStar
  | InvalidHeaderName
  | InvalidTime

section \<open>Cache key construction (utils.js)\<close>

text \<open>\<open>url.pathname.replace(/^\/|\/$/g, '')\<close>: one leading slash and one trailing slash
  are removed.\<close>

definition getNormalizedPathname :: "URL \<Rightarrow> string" where
  "getNormalizedPathname u =
     (let p = pathname u;
          r = (if startsWith p ''/'' then tl p else p)
      in if r \<noteq> [] \<and> last r = CHR ''/'' then butlast r else r)"

text \<open>The \<open>pathname\<close> setter of an http(s) URL: the path always starts with a slash.\<close>

definition set_pathname :: "URL \<Rightarrow> string \<Rightarrow> URL" where
  "set_pathname u p = u\<lparr>pathname := (if startsWith p ''/'' then p else CHR ''/'' # p)\<rparr>"

text \<open>
  The platform functions that read a body: \<open>JSON.parse\<close> (\<open>None\<close> when it throws), and
  the parser and serialiser of \<open>URLSearchParams\<close>.
\<close>

record platform =
  json_parse :: "string \<Rightarrow> json option"
  form_parse :: "string \<Rightarrow> (string \<times> string) list"
  form_serialize :: "(string \<times> string) list \<Rightarrow> string"

definition sortedBody :: "json \<Rightarrow> json" where
  "sortedBody j =
     JObj (foldl (\<lambda>acc key. case map_of (own_entries j) key of
                                None \<Rightarrow> acc
                              | Some v \<Rightarrow> obj_put key v acc)
                 [] (sort (map fst (own_entries j))))"

fun is_object :: "json \<Rightarrow> bool" where
  "is_object (JObj kvs) = True"
| "is_object (JArr xs) = True"
| "is_object _ = False"

text \<open>
  \<open>serializeRequestBodyForKey\<close>. When the content type is JSON and the body is there,
  \<open>json()\<close> consumes it: if parsing throws, or the value is not an object, the code goes
  on to \<open>text()\<close> on the consumed body, which rejects. A request without a body has
  nothing to consume: \<open>json()\<close> throws on the empty input and \<open>text()\<close> gives the empty
  string.
\<close>

definition serializeRequestBodyForKey :: "platform \<Rightarrow> request \<Rightarrow> error + string" where
  "serializeRequestBodyForKey P r =
     (if method r \<in> set [''GET'', ''HEAD''] then Inr []
      else
        let contentType = or_else (headers_get (headers r) ''content-type'') [];
            fromText = (\<lambda>bodyAsText.
               if str_includes contentType ''application/x-www-form-urlencoded''
               then Inr (form_serialize P (sp_sort (form_parse P bodyAsText)))
               else Inr bodyAsText)
        in if str_includes contentType ''application/json''
           then (case body r of
                   None \<Rightarrow> fromText []
                 | Some b \<Rightarrow>
                     (case json_parse P b of
                        None \<Rightarrow> Inl BodyUsed
                      | Some bodyAsJson \<Rightarrow>
                          if is_object bodyAsJson then Inr (stringify (sortedBody bodyAsJson))
                          else Inl BodyUsed))
           else fromText (case body r of None \<Rightarrow> [] | Some b \<Rightarrow> b))"

definition keySearchParamPrefix :: string where
  "keySearchParamPrefix = ''__''"

definition key_params ::
  "request \<Rightarrow> string list \<Rightarrow> string \<Rightarrow> (string \<times> string) list \<Rightarrow> (string \<times> string) list" where
  "key_params r keyHeaders b ps =
     sp_sort
       (foldl (\<lambda>acc keyHeader.
                 sp_set (keySearchParamPrefix @ ''header-'' @ keyHeader)
                        (or_else (headers_get (headers r) keyHeader) ''none'') acc)
              (sp_set (keySearchParamPrefix @ ''method'') (method r)
                 (sp_set (keySearchParamPrefix @ ''body'') (or_else (Some b) ''none'') ps))
              keyHeaders)"

text \<open>\<open>buildCacheKeyRequest\<close>. The loop over \<open>keyHeaders\<close> throws at the first name that
  is not a header name. The request returned is built with the headers of the original
  only, so its method is the default, \<open>GET\<close>, and it has no body.\<close>

definition buildCacheKeyRequest :: "platform \<Rightarrow> request \<Rightarrow> string list \<Rightarrow> error + request" where
  "buildCacheKeyRequest P r keyHeaders =
     (let clonedUrl = set_pathname (url r) (getNormalizedPathname (url r))
      in case serializeRequestBodyForKey P r of
           Inl e \<Rightarrow> Inl e
         | Inr b \<Rightarrow>
             if \<not> list_all valid_header_name keyHeaders then Inl InvalidHeaderName
             else
               Inr \<lparr> method = ''GET'',
                     url = clonedUrl\<lparr>searchParams := key_params r keyHeaders b (searchParams clonedUrl)\<rparr>,
                     headers = headers r,
                     body = None \<rparr>)"

text \<open>
  \<open>revertCacheKeyRequest\<close>. The loop deletes from the parameter list while it iterates
  over it. The iterator of \<open>URLSearchParams\<close> is an index into the live list: each step
  reads the pair at the index and moves the index by one, whatever was deleted.
\<close>

function revert_loop :: "nat \<Rightarrow> (string \<times> string) list \<Rightarrow> (string \<times> string) list" where
  "revert_loop i ps =
     (if i < length ps
      then let key = fst (ps ! i)
           in revert_loop (Suc i) (if startsWith key keySearchParamPrefix then sp_delete key ps else ps)
      else ps)"
  by pat_completeness auto
termination
proof (relation "measure (\<lambda>(i, ps). length ps - i)")
  show "wf (measure (\<lambda>(i, ps). length ps - i))" by simp
next
  fix i :: nat and ps :: "(string \<times> string) list" and x :: string
  assume "i < length ps" and "x = fst (ps ! i)"
  have "length (sp_delete x ps) \<le> length ps"
    by (simp add: sp_delete_def)
  with \<open>i < length ps\<close>
  show "((Suc i, if startsWith x keySearchParamPrefix then sp_delete x ps else ps), i, ps)
          \<in> measure (\<lambda>(i, ps). length ps - i)"
    by auto
qed

declare revert_loop.simps [simp del]

definition revertCacheKeyRequest :: "request \<Rightarrow> request" where
  "revertCacheKeyRequest k =
     \<lparr> method = method k,
       url = (url k)\<lparr>searchParams := revert_loop 0 (searchParams (url k))\<rparr>,
       headers = headers k,
       body = None \<rparr>"

section \<open>Cache policy and its resolution (cache-config-store.js)\<close>

datatype PrefetchMode = Always | OnLoad | OnUpdate | Never

text \<open>A settings object of the policy: every field is optional. The code reads
  \<open>lastModified\<close>, \<open>keyHeaders\<close> and \<open>prefetch\<close>; a \<open>ttl\<close> field of the policy is
  carried along by the merge.\<close>

record CacheSettings =
  lastModified :: "int option"
  ttl :: "int option"
  keyHeaders :: "string list option"
  prefetch :: "PrefetchMode option"

record EndpointConfig =
  ep_settings :: "CacheSettings option"
  methods :: "(string \<times> CacheSettings) list"

record HostConfig =
  host_settings :: "CacheSettings option"
  endpoints :: "(string \<times> EndpointConfig) list"

record CacheConfig =
  settings :: "CacheSettings option"
  hosts :: "(string \<times> HostConfig) list"
  cacheTTL :: "int option"

text \<open>The object spread \<open>{...acc, ...level}\<close>: a field of \<open>level\<close> wins when present.\<close>

definition spread :: "CacheSettings \<Rightarrow> CacheSettings \<Rightarrow> CacheSettings" where
  "spread acc level =
     \<lparr> lastModified = (case lastModified level of None \<Rightarrow> lastModified acc | Some x \<Rightarrow> Some x),
       ttl = (case ttl level of None \<Rightarrow> ttl acc | Some x \<Rightarrow> Some x),
       keyHeaders = (case keyHeaders level of None \<Rightarrow> keyHeaders acc | Some x \<Rightarrow> Some x),
       prefetch = (case prefetch level of None \<Rightarrow> prefetch acc | Some x \<Rightarrow> Some x) \<rparr>"

definition no_settings :: CacheSettings where
  "no_settings = \<lparr> lastModified = None, ttl = None, keyHeaders = None, prefetch = None \<rparr>"

definition defaultPrefetchMode :: PrefetchMode where
  "defaultPrefetchMode = Never"

definition default_settings :: CacheSettings where
  "default_settings =
     \<lparr> lastModified = None, ttl = None, keyHeaders = Some [], prefetch = Some defaultPrefetchMode \<rparr>"

text \<open>\<open>resolveRequestSettings\<close> on the current policy. \<open>None\<close> is \<open>undefined\<close>.\<close>

definition resolveRequestSettings ::
  "CacheConfig option \<Rightarrow> request \<Rightarrow> string list \<Rightarrow> CacheSettings option" where
  "resolveRequestSettings cur r blackList =
     (case cur of
        None \<Rightarrow> None
      | Some cfg \<Rightarrow>
          if origin (url r) \<in> set blackList then None
          else
            (case map_of (hosts cfg) (origin (url r)) of
               None \<Rightarrow> None
             | Some hostConfig \<Rightarrow>
                 let cleanedPathname = getNormalizedPathname (url r);
                     endpointConfig = map_of (endpoints hostConfig) cleanedPathname;
                     meth = toUpperCase (method r);
                     methodConfig = (case endpointConfig of
                                       None \<Rightarrow> None
                                     | Some ec \<Rightarrow> map_of (methods ec) meth);
                     levels = List.map_filter id
                                [settings cfg,
                                 host_settings hostConfig,
                                 (case endpointConfig of None \<Rightarrow> None | Some ec \<Rightarrow> ep_settings ec),
                                 methodConfig]
                 in if levels = [] then None
                    else Some (spread default_settings (foldl spread no_settings levels))))"

section \<open>The engine state\<close>

record response =
  status :: nat
  rheaders :: "(string \<times> string) list"
  rbody :: string

datatype 'a promise = Pending | Resolved 'a | Rejected error

datatype message =
    TaskHeartbeat URL string int
  | TaskEnd URL
  | ResponseReady URL response

datatype callback = OnSet | OnReset

text \<open>The object with the properties \<open>config\<close> and \<open>savedAt\<close>, each of which may be
  missing: the record of the database, and what the store reads them from.\<close>

record saved =
  sconfig :: "CacheConfig option"
  savedAt :: "int option"

text \<open>
  One worker instance. The response store is the list of its (key request, response)
  pairs in insertion order. \<open>persisted\<close> is the durable record under the key
  \<open>latest\<close>; \<open>idb_error\<close> is the error with which opening the database fails, if it does.
  \<open>fired\<close> lists the store callbacks that were called and not awaited. \<open>polling\<close> is
  \<open>None\<close> when no polling manager is configured, and otherwise says whether its
  interval runs. Timers are (id, delay) pairs. \<open>fetched\<close> lists the requests sent to
  the network. The fields from \<open>inFlightRequests\<close> on are the state of the deduplication
  layer and of the heartbeat manager; a deferred is named by its index in \<open>deferreds\<close>,
  and \<open>timeouts\<close> holds the deferreds whose timeout timer is pending.
\<close>

record engine =
  current :: "CacheConfig option"
  cleanupTimeoutId :: "nat option"
  timers :: "(nat \<times> int) list"
  persisted :: "saved option"
  idb_error :: "error option"
  cache :: "(request \<times> response) list"
  polling :: "bool option"
  fired :: "callback list"
  logged :: "(string \<times> string) list"
  fetched :: "request list"
  inFlightRequests :: "URL \<rightharpoonup> nat"
  deferreds :: "response promise list"
  heartbeats :: "URL \<rightharpoonup> int \<times> string"
  intervals :: "URL set"
  timeouts :: "nat set"
  posted :: "message list"
  tabId :: string

definition logger :: "string \<Rightarrow> string \<Rightarrow> engine \<Rightarrow> engine" where
  "logger level type e = e\<lparr>logged := logged e @ [(level, type)]\<rparr>"

section \<open>The response store (Cache API)\<close>

text \<open>
  A request matches a stored entry when the URLs are equal and, for every field that the
  \<open>Vary\<close> header of the stored response names, the request and the stored key request
  have the same value. (A stored response never names the field \<open>*\<close>: \<open>put\<close> rejects
  it.) Only \<open>GET\<close> requests match. \<open>put\<close> rejects a request of another method, a
  response with the status 206 and a response whose \<open>Vary\<close> header has the value \<open>*\<close>;
  it replaces the entries its request matches.
\<close>

fun split_on :: "char \<Rightarrow> string \<Rightarrow> string list" where
  "split_on c [] = [[]]"
| "split_on c (x # xs) =
     (if x = c then [] # split_on c xs
      else (case split_on c xs of [] \<Rightarrow> [[x]] | y # ys \<Rightarrow> (x # y) # ys))"

definition is_http_ws :: "char \<Rightarrow> bool" where
  "is_http_ws c = ((of_char c :: nat) \<in> set [9, 10, 13, 32])"

definition http_trim :: "string \<Rightarrow> string" where
  "http_trim s = rev (dropWhile is_http_ws (rev (dropWhile is_http_ws s)))"

definition vary_fields :: "response \<Rightarrow> string list" where
  "vary_fields resp =
     (case headers_get (rheaders resp) ''vary'' of
        None \<Rightarrow> []
      | Some v \<Rightarrow> map http_trim (split_on CHR '','' v))"

definition request_matches :: "request \<Rightarrow> request \<times> response \<Rightarrow> bool" where
  "request_matches q entry =
     (url (fst entry) = url q
      \<and> list_all (\<lambda>f. headers_get (headers q) f = headers_get (headers (fst entry)) f)
           (vary_fields (snd entry)))"

definition cache_match :: "(request \<times> response) list \<Rightarrow> request \<Rightarrow> response option" where
  "cache_match c k =
     (if method k \<noteq> ''GET'' then None
      else map_option snd (find (request_matches k) c))"

definition cache_delete :: "(request \<times> response) list \<Rightarrow> request \<Rightarrow> (request \<times> response) list" where
  "cache_delete c k =
     (if method k \<noteq> ''GET'' then c
      else filter (\<lambda>entry. \<not> request_matches k entry) c)"

definition cache_put ::
  "(request \<times> response) list \<Rightarrow> request \<Rightarrow> response \<Rightarrow> error + (request \<times> response) list" where
  "cache_put c k resp =
     (if method k \<noteq> ''GET'' then Inl PutNonGet
      else if status resp = 206 then Inl PutPartialContent
      else if ''*'' \<in> set (vary_fields resp) then Inl PutVaryStar
      else Inr (filter (\<lambda>entry. \<not> request_matches k entry) c @ [(k, resp)]))"

definition cache_keys :: "(request \<times> response) list \<Rightarrow> request list" where
  "cache_keys c = map fst c"

section \<open>The response cache manager (api-cache-manager.js)\<close>

definition clear :: "engine \<Rightarrow> engine" where
  "clear e = e\<lparr>cache := foldl cache_delete (cache e) (cache_keys (cache e))\<rparr>"

text \<open>
  One round of the loop of \<open>deleteStaleEntries\<close>, for one stored key request. The loop
  ends at the first round that throws: \<open>Headers.get\<close> on a name that is not a header
  name, or \<open>toISOString\<close> on a timestamp that is not a date. A missing \<open>lastModified\<close> is
  \<open>undefined\<close>, and the comparison with it is false.
\<close>

definition sweep_entry :: "string \<Rightarrow> error option \<times> engine \<Rightarrow> request \<Rightarrow> error option \<times> engine" where
  "sweep_entry cacheTimestampHeader st k =
     (case st of
        (Some err, e) \<Rightarrow> (Some err, e)
      | (None, e) \<Rightarrow>
          (case cache_match (cache e) k of
             None \<Rightarrow> (None, e)
           | Some resp \<Rightarrow>
               let originalRequest = revertCacheKeyRequest k
               in case resolveRequestSettings (current e) originalRequest [] of
                    None \<Rightarrow> (None, e)
                  | Some endpointConfig \<Rightarrow>
                      if \<not> valid_header_name cacheTimestampHeader then (Some InvalidHeaderName, e)
                      else
                        let responseTimestamp =
                              to_number (headers_get (rheaders resp) cacheTimestampHeader)
                        in if responseTimestamp = NaN
                           then (None, (logger ''warn'' ''api-cache-manager'' e)
                                         \<lparr>cache := cache_delete (cache e) k\<rparr>)
                           else if lt_number responseTimestamp
                                     (case lastModified endpointConfig of
                                        None \<Rightarrow> NaN
                                      | Some lm \<Rightarrow> number_of_int lm)
                           then if \<not> date_valid responseTimestamp then (Some InvalidTime, e)
                                else (None, (logger ''log'' ''api-cache-manager'' e)
                                              \<lparr>cache := cache_delete (cache e) k\<rparr>)
                           else (None, e)))"

text \<open>\<open>deleteStaleEntries\<close>: the error it rejects with, if any, and the state it leaves.\<close>

definition deleteStaleEntries :: "string \<Rightarrow> engine \<Rightarrow> error option \<times> engine" where
  "deleteStaleEntries cacheTimestampHeader e =
     foldl (sweep_entry cacheTimestampHeader) (None, e) (cache_keys (cache e))"

section \<open>Heartbeats and deduplication (task-heartbeat-manager.js, dedup-response-manager.js)\<close>

definition heartbeatIntervalMs :: int where
  "heartbeatIntervalMs = 500"

definition startHeartbeat :: "int \<Rightarrow> URL \<Rightarrow> engine \<Rightarrow> engine" where
  "startHeartbeat now key e =
     (if key \<in> intervals e then e
      else e\<lparr>heartbeats := (heartbeats e)(key \<mapsto> (now, tabId e)),
             intervals := insert key (intervals e)\<rparr>)"

definition endHeartbeat :: "URL \<Rightarrow> engine \<Rightarrow> engine" where
  "endHeartbeat key e =
     (if key \<in> intervals e
      then e\<lparr>intervals := intervals e - {key}, posted := posted e @ [TaskEnd key]\<rparr>
      else e)"

definition isOwnerAlive :: "int \<Rightarrow> URL \<Rightarrow> engine \<Rightarrow> bool" where
  "isOwnerAlive now key e =
     (case heartbeats e key of
        None \<Rightarrow> False
      | Some entry \<Rightarrow> now - fst entry < heartbeatIntervalMs * 2)"

text \<open>Settling a deferred: only a pending promise changes.\<close>

definition resolve :: "nat \<Rightarrow> response \<Rightarrow> engine \<Rightarrow> engine" where
  "resolve d resp e =
     (if d < length (deferreds e) \<and> deferreds e ! d = Pending
      then e\<lparr>deferreds := (deferreds e)[d := Resolved resp]\<rparr> else e)"

definition reject :: "nat \<Rightarrow> error \<Rightarrow> engine \<Rightarrow> engine" where
  "reject d err e =
     (if d < length (deferreds e) \<and> deferreds e ! d = Pending
      then e\<lparr>deferreds := (deferreds e)[d := Rejected err]\<rparr> else e)"

text \<open>
  \<open>getDedupedResponse\<close> in the three steps between which the event loop may run other
  work. \<open>dedupe_enter\<close> is the part before \<open>await fetcher()\<close>: a caller that finds the key
  in flight is handed the promise of the registered deferred (\<open>Inl\<close> its index); the
  first caller registers a new deferred, starts the heartbeat and the timeout, and goes
  on to the fetcher (\<open>Inr\<close>).
\<close>

definition dedupe_enter :: "int \<Rightarrow> URL \<Rightarrow> engine \<Rightarrow> (nat + nat) \<times> engine" where
  "dedupe_enter now key e =
     (case inFlightRequests e key of
        Some d \<Rightarrow> (Inl d, logger ''log'' ''dedup'' e)
      | None \<Rightarrow>
          let d = length (deferreds e);
              e1 = e\<lparr>deferreds := deferreds e @ [Pending],
                      inFlightRequests := (inFlightRequests e)(key \<mapsto> d)\<rparr>;
              e2 = startHeartbeat now key e1
          in (Inr d, e2\<lparr>timeouts := insert d (timeouts e2)\<rparr>))"

text \<open>The \<open>finally\<close> block.\<close>

definition release :: "URL \<Rightarrow> nat \<Rightarrow> engine \<Rightarrow> engine" where
  "release key d e =
     (let e1 = endHeartbeat key (e\<lparr>inFlightRequests := (inFlightRequests e)(key := None)\<rparr>)
      in e1\<lparr>timeouts := timeouts e1 - {d}\<rparr>)"

text \<open>
  \<open>dedupe_settle\<close> is the rest of the owner's call, once the fetcher has settled with
  \<open>outcome\<close>. The value returned is what the owner's own call resolves to (\<open>Inr\<close>) or
  rejects with (\<open>Inl\<close>).
\<close>

definition dedupe_settle ::
  "URL \<Rightarrow> nat \<Rightarrow> error + response \<Rightarrow> engine \<Rightarrow> (error + response) \<times> engine" where
  "dedupe_settle key d outcome e =
     (case outcome of
        Inr resp \<Rightarrow>
          (Inr resp,
           release key d (resolve d resp (e\<lparr>posted := posted e @ [ResponseReady key resp]\<rparr>)))
      | Inl err \<Rightarrow>
          (Inl err, release key d (logger ''error'' ''dedup'' e)))"

text \<open>The timeout callback of deferred \<open>d\<close>.\<close>

definition dedupe_timeout :: "int \<Rightarrow> URL \<Rightarrow> nat \<Rightarrow> engine \<Rightarrow> engine" where
  "dedupe_timeout now key d e =
     (let e0 = e\<lparr>timeouts := timeouts e - {d}\<rparr>
      in if \<not> isOwnerAlive now key e0
         then reject d (Timeout ''no owner alive'')
                (endHeartbeat key
                   ((logger ''log'' ''dedup'' e0)
                      \<lparr>inFlightRequests := (inFlightRequests e0)(key := None)\<rparr>))
         else e0)"

definition resolveFromOtherTab :: "URL \<Rightarrow> response \<Rightarrow> engine \<Rightarrow> engine" where
  "resolveFromOtherTab key resp e =
     (case inFlightRequests e key of
        None \<Rightarrow> e
      | Some d \<Rightarrow> (resolve d resp e)\<lparr>inFlightRequests := (inFlightRequests e)(key := None)\<rparr>)"

section \<open>The request pipeline (utils.js)\<close>

datatype outcome = Returned response | Threw error | Awaits nat

definition ok :: "response \<Rightarrow> bool" where
  "ok resp = (200 \<le> status resp \<and> status resp \<le> 299)"

text \<open>The entries of a \<open>Headers\<close> object as its iterator gives them: names in lower
  case and sorted, the values of one name joined.\<close>

definition headers_entries :: "(string \<times> string) list \<Rightarrow> (string \<times> string) list" where
  "headers_entries hs =
     map (\<lambda>n. (n, join '', '' (map snd (filter (\<lambda>p. toLowerCase (fst p) = n) hs))))
         (sort (remdups (map (\<lambda>p. toLowerCase (fst p)) hs)))"

fun upsert :: "string \<Rightarrow> string \<Rightarrow> (string \<times> string) list \<Rightarrow> (string \<times> string) list" where
  "upsert n v [] = [(n, v)]"
| "upsert n v ((k, w) # ps) = (if k = n then (n, v) # ps else (k, w) # upsert n v ps)"

text \<open>The network is a parameter: \<open>net r\<close> is what \<open>fetch(r)\<close> settles with. The clock
  reads \<open>now\<close> throughout a call: \<open>Date.now()\<close> is an integer that a number holds exactly
  and prints in full. The \<open>Headers\<close> constructor throws on a name that is not a header
  name.\<close>

text \<open>
  The copy that \<open>fetchAndStoreInCache\<close> stores: the headers of the network response
  with the timestamp under the given name, which replaces a header of exactly that name.
  The headers of a response made by \<open>new Response\<close> never take the names \<open>Set-Cookie\<close>
  and \<open>Set-Cookie2\<close>.
\<close>

definition is_forbidden_response_header :: "string \<Rightarrow> bool" where
  "is_forbidden_response_header n = (toLowerCase n \<in> set [''set-cookie'', ''set-cookie2''])"

definition modifiedResponse :: "string \<Rightarrow> int \<Rightarrow> response \<Rightarrow> response" where
  "modifiedResponse cacheTimestampHeader now networkResponse =
     networkResponse\<lparr>rheaders :=
       filter (\<lambda>p. \<not> is_forbidden_response_header (fst p))
         (upsert cacheTimestampHeader (show_int now)
            (headers_entries (rheaders networkResponse)))\<rparr>"

definition fetchAndStoreInCache ::
  "(request \<Rightarrow> error + response) \<Rightarrow> int \<Rightarrow> string \<Rightarrow> request \<Rightarrow> request \<Rightarrow> engine
     \<Rightarrow> (error + response) \<times> engine" where
  "fetchAndStoreInCache net now cacheTimestampHeader r requestCacheKey e =
     (let e1 = e\<lparr>fetched := fetched e @ [r]\<rparr>
      in case net r of
           Inl err \<Rightarrow> (Inl err, e1)
         | Inr networkResponse \<Rightarrow>
             if \<not> ok networkResponse then (Inr networkResponse, e1)
             else if \<not> valid_header_name cacheTimestampHeader then (Inl InvalidHeaderName, e1)
             else
               (case cache_put (cache e1) requestCacheKey
                       (modifiedResponse cacheTimestampHeader now networkResponse) of
                  Inl err \<Rightarrow> (Inl err, e1)
                | Inr c \<Rightarrow> (Inr networkResponse, e1\<lparr>cache := c\<rparr>)))"

text \<open>\<open>getDedupedResponse(requestCacheKey.url, fetcher)\<close> with the fetcher above, run
  without other work in between. The URL of the key request is the deduplication key.\<close>

definition fetch_deduped ::
  "(request \<Rightarrow> error + response) \<Rightarrow> int \<Rightarrow> string \<Rightarrow> request \<Rightarrow> request \<Rightarrow> engine
     \<Rightarrow> outcome \<times> engine" where
  "fetch_deduped net now cacheTimestampHeader r requestCacheKey e =
     (case dedupe_enter now (url requestCacheKey) e of
        (Inl d, e1) \<Rightarrow> (Awaits d, e1)
      | (Inr d, e1) \<Rightarrow>
          (case fetchAndStoreInCache net now cacheTimestampHeader r requestCacheKey e1 of
             (fetcherOutcome, e2) \<Rightarrow>
               (case dedupe_settle (url requestCacheKey) d fetcherOutcome e2 of
                  (Inl err, e3) \<Rightarrow> (Threw err, e3)
                | (Inr resp, e3) \<Rightarrow> (Returned resp, e3))))"

text \<open>The test \<open>cachedTimestamp <= currentTimestamp\<close> of \<open>getResponse\<close>; it is false
  for \<open>NaN\<close>.\<close>

definition served_at :: "int \<Rightarrow> number \<Rightarrow> bool" where
  "served_at currentTimestamp cachedTimestamp =
     le_number cachedTimestamp (number_of_int currentTimestamp)"

definition getResponse ::
  "platform \<Rightarrow> (request \<Rightarrow> error + response) \<Rightarrow> int \<Rightarrow> string \<Rightarrow> request \<Rightarrow> engine
     \<Rightarrow> outcome \<times> engine" where
  "getResponse P net now cacheTimestampHeader r e =
     (case resolveRequestSettings (current e) r [] of
        None \<Rightarrow>
          (case net r of Inl err \<Rightarrow> Threw err | Inr resp \<Rightarrow> Returned resp,
           e\<lparr>fetched := fetched e @ [r]\<rparr>)
      | Some endpointConfig \<Rightarrow>
          (case buildCacheKeyRequest P r
                  (case keyHeaders endpointConfig of None \<Rightarrow> [] | Some hs \<Rightarrow> hs) of
             Inl err \<Rightarrow> (Threw err, e)
           | Inr requestCacheKey \<Rightarrow>
               (case cache_match (cache e) requestCacheKey of
                  Some cachedResponse \<Rightarrow>
                    if \<not> valid_header_name cacheTimestampHeader
                    then (Threw InvalidHeaderName, e)
                    else if served_at now
                         (to_number (headers_get (rheaders cachedResponse) cacheTimestampHeader))
                    then (Returned cachedResponse, logger ''log'' ''get-response'' e)
                    else fetch_deduped net now cacheTimestampHeader r requestCacheKey
                           (logger ''log'' ''get-response''
                              (e\<lparr>cache := cache_delete (cache e) requestCacheKey\<rparr>))
                | None \<Rightarrow>
                    fetch_deduped net now cacheTimestampHeader r requestCacheKey
                      (logger ''log'' ''get-response'' e))))"

section \<open>Durable policy record (config-persistence.js)\<close>

text \<open>Each function opens the database first; \<open>openDB\<close> rejects with the error of the
  open request. Once the database is open, a put or a delete takes effect. The first
  component of a result is the error the call rejects with.\<close>

definition saveConfigToIndexedDB :: "CacheConfig \<Rightarrow> int \<Rightarrow> engine \<Rightarrow> error option \<times> engine" where
  "saveConfigToIndexedDB cfg now e =
     (case idb_error e of
        Some err \<Rightarrow> (Some err, e)
      | None \<Rightarrow> (None, e\<lparr>persisted := Some \<lparr> sconfig = Some cfg, savedAt = Some now \<rparr>\<rparr>))"

text \<open>
  \<open>loadConfigFromIndexedDB\<close> returns \<open>store.get(configKey) || null\<close>. What \<open>store.get\<close>
  returns is the request object, not the record the request will find: an object, so
  never \<open>null\<close>, that has no property \<open>config\<close> and no property \<open>savedAt\<close>, whatever the
  database holds.
\<close>

definition get_request :: saved where
  "get_request = \<lparr> sconfig = None, savedAt = None \<rparr>"

definition loadConfigFromIndexedDB :: "engine \<Rightarrow> error + saved option" where
  "loadConfigFromIndexedDB e =
     (case idb_error e of Some err \<Rightarrow> Inl err | None \<Rightarrow> Inr (Some get_request))"

definition clearConfigFromIndexedDB :: "engine \<Rightarrow> error option \<times> engine" where
  "clearConfigFromIndexedDB e =
     (case idb_error e of
        Some err \<Rightarrow> (Some err, e)
      | None \<Rightarrow> (None, e\<lparr>persisted := None\<rparr>))"

section \<open>The policy store (cache-config-store.js)\<close>

text \<open>A fresh timer id: ids are positive and never reused.\<close>

definition fresh_timer :: "engine \<Rightarrow> nat" where
  "fresh_timer e = Suc (fold max (map fst (timers e)) (case cleanupTimeoutId e of None \<Rightarrow> 0 | Some i \<Rightarrow> i))"

definition scheduleCleanup :: "int \<Rightarrow> engine \<Rightarrow> engine" where
  "scheduleCleanup ms e =
     (let i = fresh_timer e
      in e\<lparr>cleanupTimeoutId := Some i, timers := timers e @ [(i, ms)]\<rparr>)"

definition clearScheduledCleanup :: "engine \<Rightarrow> engine" where
  "clearScheduledCleanup e =
     (case cleanupTimeoutId e of
        None \<Rightarrow> e
      | Some i \<Rightarrow> e\<lparr>cleanupTimeoutId := None, timers := filter (\<lambda>t. fst t \<noteq> i) (timers e)\<rparr>)"

text \<open>Calling a callback without awaiting it.\<close>

definition fire :: "callback \<Rightarrow> engine \<Rightarrow> engine" where
  "fire cb e = e\<lparr>fired := fired e @ [cb]\<rparr>"

text \<open>The truth value of an optional number, as in \<open>if (cacheTTL)\<close>.\<close>

definition truthy :: "int option \<Rightarrow> bool" where
  "truthy x = (case x of None \<Rightarrow> False | Some n \<Rightarrow> n \<noteq> 0)"

text \<open>\<open>set\<close>. The first component is the error the call rejects with, if any.\<close>

definition store_set :: "CacheConfig option \<Rightarrow> int \<Rightarrow> engine \<Rightarrow> error option \<times> engine" where
  "store_set newCacheConfig now e =
     (let e1 = (clearScheduledCleanup e)\<lparr>current := newCacheConfig\<rparr>
      in case newCacheConfig of
           Some cfg \<Rightarrow>
             if truthy (cacheTTL cfg)
             then (case saveConfigToIndexedDB cfg now e1 of
                     (Some err, e2) \<Rightarrow> (Some err, e2)
                   | (None, e2) \<Rightarrow>
                       (None, fire OnSet (scheduleCleanup (case cacheTTL cfg of None \<Rightarrow> 0 | Some t \<Rightarrow> t) e2)))
             else (None, fire OnSet e1)
         | None \<Rightarrow>
             (case clearConfigFromIndexedDB e1 of
                (Some err, e2) \<Rightarrow> (Some err, e2)
              | (None, e2) \<Rightarrow> (None, fire OnReset e2)))"

definition reset :: "int \<Rightarrow> engine \<Rightarrow> error option \<times> engine" where
  "reset now e = store_set None now e"

text \<open>\<open>loadFromCacheIfValid\<close>: \<open>Inr\<close> the boolean it resolves to, \<open>Inl\<close> the error it
  rejects with.\<close>

definition loadFromCacheIfValid :: "int \<Rightarrow> engine \<Rightarrow> (error + bool) \<times> engine" where
  "loadFromCacheIfValid now e =
     (case loadConfigFromIndexedDB e of
        Inl err \<Rightarrow> (Inl err, e)
      | Inr None \<Rightarrow> (Inr False, e)
      | Inr (Some sv) \<Rightarrow>
          (case (sconfig sv, savedAt sv) of
             (Some cfg, Some t) \<Rightarrow>
               if \<not> truthy (cacheTTL cfg) then (Inr False, e)
               else
                 let expiresAt = t + (case cacheTTL cfg of None \<Rightarrow> 0 | Some c \<Rightarrow> c)
                 in if now < expiresAt
                    then (Inr True,
                          fire OnSet (scheduleCleanup (expiresAt - now) (e\<lparr>current := Some cfg\<rparr>)))
                    else (case clearConfigFromIndexedDB e of
                            (Some err, e1) \<Rightarrow> (Inl err, e1)
                          | (None, e1) \<Rightarrow> (Inr False, e1))
           | _ \<Rightarrow> (Inr False, e)))"

section \<open>The worker (index.js)\<close>

text \<open>The polling manager, when there is one.\<close>

definition polling_start :: "engine \<Rightarrow> engine" where
  "polling_start e = (case polling e of None \<Rightarrow> e | Some running \<Rightarrow> e\<lparr>polling := Some True\<rparr>)"

definition polling_stop :: "engine \<Rightarrow> engine" where
  "polling_stop e = (case polling e of None \<Rightarrow> e | Some running \<Rightarrow> e\<lparr>polling := Some False\<rparr>)"

text \<open>
  The body of the \<open>onReset\<close> callback given to the store. The store calls it without
  awaiting it, and its first step waits for the response store to open, so the body runs
  after the call of \<open>set\<close> that fired it has returned.
\<close>

definition onReset :: "engine \<Rightarrow> engine" where
  "onReset e = polling_stop (clear e)"

text \<open>The \<open>onDisconnect\<close> handler given to the sync client, up to its end: it awaits
  \<open>reset\<close> and then starts the polling.\<close>

definition onDisconnect :: "int \<Rightarrow> engine \<Rightarrow> error option \<times> engine" where
  "onDisconnect now e =
     (case reset now e of
        (Some err, e1) \<Rightarrow> (Some err, e1)
      | (None, e1) \<Rightarrow> (None, polling_start e1))"

definition cacheTimestampHeader :: string where
  "cacheTimestampHeader = ''x-cache-timestamp''"

text \<open>The body of the \<open>onSet\<close> callback starts with the sweep
  \<open>deleteStaleEntries cacheTimestampHeader\<close>; like \<open>onReset\<close> it is called without being
  awaited.\<close>

section \<open>The sync client (cache-config-sync-client.js)\<close>

text \<open>
  The value of a message's \<open>data\<close> field is a JSON value or \<open>undefined\<close> (\<open>None\<close>);
  \<open>JSON.stringify(undefined)\<close> is \<open>undefined\<close>. The client holds the last value it
  delivered, \<open>null\<close> at first, and whether a callback \<open>onReceiveNewCacheConfig\<close> was
  given; \<open>received\<close> lists the values handed to the callback.
\<close>

record sync_client =
  currentCacheConfig :: "json option"
  has_onReceive :: bool
  received :: "json option list"

definition JSON_stringify :: "json option \<Rightarrow> string option" where
  "JSON_stringify v = map_option stringify v"

definition new_client :: "bool \<Rightarrow> sync_client" where
  "new_client cb = \<lparr> currentCacheConfig = Some JNull, has_onReceive = cb, received = [] \<rparr>"

definition triggerReceiveNewCacheConfigIfHasChanges :: "json option \<Rightarrow> sync_client \<Rightarrow> sync_client" where
  "triggerReceiveNewCacheConfigIfHasChanges newCacheConfig c =
     (if \<not> has_onReceive c then c
      else
        let hasChange = (JSON_stringify newCacheConfig \<noteq> JSON_stringify (currentCacheConfig c))
        in if hasChange
           then c\<lparr>currentCacheConfig := newCacheConfig, received := received c @ [newCacheConfig]\<rparr>
           else c)"

text \<open>
  Following the spec's words: the canonical form of a JSON value, in which the keys of
  every object are sorted. Two values are structurally equal when their canonical forms
  are equal.
\<close>

fun canonical :: "json \<Rightarrow> json"
  and canonical_items :: "json list \<Rightarrow> json list"
  and canonical_props :: "(string \<times> json) list \<Rightarrow> (string \<times> json) list" where
  "canonical (JArr xs) = JArr (canonical_items xs)"
| "canonical (JObj kvs) = JObj (sort_key fst (canonical_props kvs))"
| "canonical JNull = JNull"
| "canonical (JBool b) = JBool b"
| "canonical (JNum n) = JNum n"
| "canonical (JStr s) = JStr s"
| "canonical_items [] = []"
| "canonical_items (x # xs) = canonical x # canonical_items xs"
| "canonical_props [] = []"
| "canonical_props ((k, v) # kvs) = (k, canonical v) # canonical_props kvs"

section \<open>Requests that differ only in order\<close>

text \<open>
  Two lists of named pairs hold the same pairs, those of one name in the same order.
  For lists with one pair for each name this is any reordering.
\<close>

definition same_order_per_name :: "(string \<times> string) list \<Rightarrow> (string \<times> string) list \<Rightarrow> bool" where
  "same_order_per_name xs ys =
     list_all (\<lambda>n. filter (\<lambda>p. fst p = n) xs = filter (\<lambda>p. fst p = n) ys) (map fst (xs @ ys))"

definition lower_names :: "(string \<times> string) list \<Rightarrow> (string \<times> string) list" where
  "lower_names hs = map (\<lambda>p. (toLowerCase (fst p), snd p)) hs"

text \<open>Both bodies parse to objects with the same properties, in any order.\<close>

definition reordered_json_body :: "platform \<Rightarrow> request \<Rightarrow> request \<Rightarrow> bool" where
  "reordered_json_body P r r' =
     (case (body r, body r') of
        (Some b, Some b') \<Rightarrow>
          (case (json_parse P b, json_parse P b') of
             (Some (JObj xs), Some (JObj ys)) \<Rightarrow> distinct (map fst xs) \<and> mset xs = mset ys
           | _ \<Rightarrow> False)
      | _ \<Rightarrow> False)"

definition same_up_to_order :: "platform \<Rightarrow> request \<Rightarrow> request \<Rightarrow> bool" where
  "same_up_to_order P r r' =
     (method r' = method r
      \<and> origin (url r') = origin (url r)
      \<and> pathname (url r') = pathname (url r)
      \<and> same_order_per_name (searchParams (url r)) (searchParams (url r'))
      \<and> same_order_per_name (lower_names (headers r)) (lower_names (headers r'))
      \<and> (body r' = body r
         \<or> (str_includes (or_else (headers_get (headers r) ''content-type'') []) ''application/json''
            \<and> reordered_json_body P r r')))"

text \<open>The URL of the key request, or the error.\<close>

definition cache_key :: "platform \<Rightarrow> request \<Rightarrow> string list \<Rightarrow> error + URL" where
  "cache_key P r khs = map_sum id url (buildCacheKeyRequest P r khs)"

section \<open>Sample values\<close>

text \<open>Concrete requests, policies and states at which the theorems below are instantiated.\<close>

definition sample_platform :: platform where
  "sample_platform =
     \<lparr> json_parse = (\<lambda>s. if s = ''{\"b\":2,\"a\":1}'' then Some (JObj [(''b'', JNum ''2''), (''a'', JNum ''1'')])
                         else if s = ''{\"a\":1,\"b\":2}'' then Some (JObj [(''a'', JNum ''1''), (''b'', JNum ''2'')])
                         else None),
       form_parse = (\<lambda>s. []),
       form_serialize = (\<lambda>ps. []) \<rparr>"

definition users_url :: URL where
  "users_url = \<lparr> origin = ''https://api.example.com'', pathname = ''/users'', searchParams = [(''page'', ''1'')] \<rparr>"

definition get_users :: request where
  "get_users = \<lparr> method = ''GET'', url = users_url, headers = [], body = None \<rparr>"

definition post_users :: request where
  "post_users = \<lparr> method = ''POST'', url = users_url, headers = [], body = None \<rparr>"

definition ttl_policy :: CacheConfig where
  "ttl_policy =
     \<lparr> settings = None,
       hosts = [(''https://api.example.com'',
                 \<lparr> host_settings = None,
                   endpoints = [(''users'',
                      \<lparr> ep_settings = Some \<lparr> lastModified = None, ttl = Some 60000, keyHeaders = None, prefetch = None \<rparr>,
                        methods = [] \<rparr>)] \<rparr>)],
       cacheTTL = None \<rparr>"

definition idle_engine :: engine where
  "idle_engine =
     \<lparr> current = None, cleanupTimeoutId = None, timers = [], persisted = None, idb_error = None,
       cache = [], polling = Some False, fired = [], logged = [], fetched = [],
       inFlightRequests = Map.empty, deferreds = [], heartbeats = Map.empty, intervals = {},
       timeouts = {}, posted = [], tabId = ''tab-1'' \<rparr>"

definition ok_net :: "request \<Rightarrow> error + response" where
  "ok_net r = Inr \<lparr> status = 200, rheaders = [], rbody = ''fresh'' \<rparr>"

definition post_users_key :: request where
  "post_users_key =
     \<lparr> method = ''GET'',
       url = \<lparr> origin = ''https://api.example.com'', pathname = ''/users'',
               searchParams = [(''__body'', ''none''), (''__method'', ''POST''), (''page'', ''1'')] \<rparr>,
       headers = [], body = None \<rparr>"

definition json_a :: request where
  "json_a =
     \<lparr> method = ''POST'',
       url = \<lparr> origin = ''https://api.example.com'', pathname = ''/users/'',
               searchParams = [(''z'', ''1''), (''a'', ''2'')] \<rparr>,
       headers = [(''Content-Type'', ''application/json''), (''X-Tenant'', ''t1'')],
       body = Some ''{\"b\":2,\"a\":1}'' \<rparr>"

definition json_b :: request where
  "json_b =
     \<lparr> method = ''POST'',
       url = \<lparr> origin = ''https://api.example.com'', pathname = ''/users/'',
               searchParams = [(''a'', ''2''), (''z'', ''1'')] \<rparr>,
       headers = [(''X-Tenant'', ''t1''), (''Content-Type'', ''application/json'')],
       body = Some ''{\"a\":1,\"b\":2}'' \<rparr>"

definition json_c :: request where
  "json_c = json_a\<lparr>headers := [(''Content-Type'', ''application/json''), (''X-Tenant'', ''t2'')]\<rparr>"

definition dup_a :: request where
  "dup_a = get_users\<lparr>url := users_url\<lparr>searchParams := [(''a'', ''1''), (''a'', ''2'')]\<rparr>\<rparr>"

definition dup_b :: request where
  "dup_b = get_users\<lparr>url := users_url\<lparr>searchParams := [(''a'', ''2''), (''a'', ''1'')]\<rparr>\<rparr>"

definition tenant_none :: request where
  "tenant_none = get_users\<lparr>headers := [(''X-Tenant'', ''none'')]\<rparr>"

definition tenant_empty :: request where
  "tenant_empty = get_users\<lparr>headers := [(''X-Tenant'', [])]\<rparr>"

definition json_key :: "string \<Rightarrow> URL" where
  "json_key tenant =
     \<lparr> origin = ''https://api.example.com'', pathname = ''/users'',
       searchParams =
         [(''__body'', ''{\"a\":1,\"b\":2}''), (''__header-X-Tenant'', tenant), (''__method'', ''POST''),
          (''a'', ''2''), (''z'', ''1'')] \<rparr>"

definition get_users_key :: request where
  "get_users_key =
     \<lparr> method = ''GET'',
       url = \<lparr> origin = ''https://api.example.com'', pathname = ''/users'',
               searchParams = [(''__body'', ''none''), (''__method'', ''GET''), (''page'', ''1'')] \<rparr>,
       headers = [], body = None \<rparr>"

definition stored_at :: "string \<Rightarrow> response" where
  "stored_at t = \<lparr> status = 200, rheaders = [(''x-cache-timestamp'', t)], rbody = ''old'' \<rparr>"

definition lm_policy :: CacheConfig where
  "lm_policy =
     \<lparr> settings = None,
       hosts = [(''https://api.example.com'',
                 \<lparr> host_settings = None,
                   endpoints = [(''users'',
                      \<lparr> ep_settings = None,
                        methods = [(''POST'',
                          \<lparr> lastModified = Some 2000, ttl = None, keyHeaders = None, prefetch = None \<rparr>)] \<rparr>)] \<rparr>)],
       cacheTTL = None \<rparr>"

definition with_entry :: "CacheConfig \<Rightarrow> request \<Rightarrow> string \<Rightarrow> engine" where
  "with_entry policy k t = idle_engine\<lparr>current := Some policy, cache := [(k, stored_at t)]\<rparr>"

definition failed_fetch :: "error + response" where
  "failed_fetch = Inl (NetworkError ''Failed to fetch'')"

definition owner_entered :: engine where
  "owner_entered = snd (dedupe_enter 0 users_url idle_engine)"

definition joiner_entered :: engine where
  "joiner_entered = snd (dedupe_enter 5 users_url owner_entered)"

definition fetcher_failed :: engine where
  "fetcher_failed = snd (dedupe_settle users_url 0 failed_fetch joiner_entered)"

definition policy_ab :: json where
  "policy_ab = JObj [(''cacheTTL'', JNum ''1000''), (''hosts'', JObj [])]"

definition policy_ba :: json where
  "policy_ba = JObj [(''hosts'', JObj []), (''cacheTTL'', JNum ''1000'')]"

definition persist_policy :: "int option \<Rightarrow> CacheConfig" where
  "persist_policy t = ttl_policy\<lparr>cacheTTL := t\<rparr>"

definition broken_engine :: engine where
  "broken_engine = idle_engine\<lparr>idb_error := Some (StoreError ''open failed'')\<rparr>"

definition restarted :: "int option \<Rightarrow> engine" where
  "restarted t = idle_engine\<lparr>persisted := Some \<lparr> sconfig = Some (persist_policy t), savedAt = Some 1000 \<rparr>\<rparr>"

section \<open>Properties of the cache key\<close>

lemma filter_sp_set_same: "filter (\<lambda>p. fst p = n) (sp_set n v ps) = [(n, v)]"
  by (induction ps) (auto simp: filter_empty_conv)

lemma filter_sp_set_other: "n \<noteq> m \<Longrightarrow> filter (\<lambda>p. fst p = m) (sp_set n v ps) = filter (\<lambda>p. fst p = m) ps"
  by (induction ps) (auto intro: filter_cong)

lemma filter_sp_sort: "filter (\<lambda>p. fst p = m) (sp_sort ps) = filter (\<lambda>p. fst p = m) ps"
  unfolding sp_sort_def by (rule sort_key_stable)

lemma filter_fold_headers:
  assumes "\<And>h. f h \<noteq> m"
  shows "filter (\<lambda>p. fst p = m) (foldl (\<lambda>acc h. sp_set (f h) (g h) acc) ps hs) = filter (\<lambda>p. fst p = m) ps"
  using assms by (induction hs arbitrary: ps) (simp_all add: filter_sp_set_other)

lemma key_params_method:
  "filter (\<lambda>p. fst p = ''__method'') (key_params r khs b ps) = [(''__method'', method r)]"
proof -
  have ne: "\<And>h. keySearchParamPrefix @ ''header-'' @ h \<noteq> ''__method''"
    by (simp add: keySearchParamPrefix_def)
  have ne2: "keySearchParamPrefix @ ''body'' \<noteq> ''__method''"
    by (simp add: keySearchParamPrefix_def)
  show ?thesis
    unfolding key_params_def filter_sp_sort
    by (simp only: filter_fold_headers [where f = "\<lambda>h. keySearchParamPrefix @ ''header-'' @ h", OF ne])
       (simp add: keySearchParamPrefix_def filter_sp_set_same)
qed

lemma build_method:
  "buildCacheKeyRequest P r khs = Inr k \<Longrightarrow> method k = ''GET'' \<and> body k = None \<and> headers k = headers r
     \<and> searchParams (url k) = key_params r khs (case serializeRequestBodyForKey P r of Inr b \<Rightarrow> b | Inl _ \<Rightarrow> []) (searchParams (url r))"
  by (auto simp: buildCacheKeyRequest_def Let_def set_pathname_def split: sum.splits if_splits)

lemma cache_logger [simp]: "cache (logger l t e) = cache e"
  by (simp add: logger_def)

lemma fetched_logger [simp]: "fetched (logger l t e) = fetched e"
  by (simp add: logger_def)

lemma inFlight_logger [simp]: "inFlightRequests (logger l t e) = inFlightRequests e"
  by (simp add: logger_def)

lemma cache_dedupe_enter: "dedupe_enter now key e = (x, e') \<Longrightarrow> cache e' = cache e"
  by (auto simp: dedupe_enter_def startHeartbeat_def Let_def split: option.splits if_splits)

lemma cache_dedupe_settle: "dedupe_settle key d oc e = (x, e') \<Longrightarrow> cache e' = cache e"
  by (auto simp: dedupe_settle_def release_def endHeartbeat_def resolve_def Let_def split: sum.splits if_splits)

lemma fetched_dedupe_enter: "dedupe_enter now key e = (x, e') \<Longrightarrow> fetched e' = fetched e"
  by (auto simp: dedupe_enter_def startHeartbeat_def Let_def split: option.splits if_splits)

lemma fetched_dedupe_settle: "dedupe_settle key d oc e = (x, e') \<Longrightarrow> fetched e' = fetched e"
  by (auto simp: dedupe_settle_def release_def endHeartbeat_def resolve_def Let_def split: sum.splits if_splits)

lemma fetched_fetchAndStore:
  "fetchAndStoreInCache net now h r k e = (x, e') \<Longrightarrow> fetched e' = fetched e @ [r]"
  by (auto simp: fetchAndStoreInCache_def Let_def split: sum.splits if_splits)

lemma fetched_fetch_deduped:
  assumes "fetch_deduped net now h r k e = (Returned resp, e')"
  shows "fetched e' = fetched e @ [r]"
proof (cases "dedupe_enter now (url k) e")
  case (Pair x e1)
  note f1 = fetched_dedupe_enter [OF Pair]
  show ?thesis
  proof (cases x)
    case (Inl d)
    with assms Pair show ?thesis by (simp add: fetch_deduped_def)
  next
    case (Inr d)
    obtain fo e2 where f: "fetchAndStoreInCache net now h r k e1 = (fo, e2)"
      by (cases "fetchAndStoreInCache net now h r k e1")
    obtain res e3 where s: "dedupe_settle (url k) d fo e2 = (res, e3)"
      by (cases "dedupe_settle (url k) d fo e2")
    from assms Pair Inr f s have "e' = e3"
      by (auto simp: fetch_deduped_def split: sum.splits)
    with fetched_dedupe_settle [OF s] fetched_fetchAndStore [OF f] f1 show ?thesis by simp
  qed
qed

lemma request_matches_self: "request_matches (fst entry) entry"
  by (simp add: request_matches_def list_all_iff)

lemma find_append_None: "find P xs = None \<Longrightarrow> find P (xs @ ys) = find P ys"
  by (induction xs) (simp_all split: if_splits)

lemma cache_match_after_put:
  assumes "method k = ''GET''"
  shows "cache_match (filter (\<lambda>entry. \<not> request_matches k entry) c @ [(k, resp)]) k = Some resp"
proof -
  have "find (request_matches k) (filter (\<lambda>entry. \<not> request_matches k entry) c) = None"
    by (simp add: find_None_iff)
  moreover have "request_matches k (k, resp)"
    using request_matches_self [of "(k, resp)"] by simp
  ultimately show ?thesis
    using assms by (simp add: cache_match_def find_append_None)
qed

lemma fetch_deduped_stores:
  assumes "inFlightRequests e (url k) = None"
    and "net r = Inr nr" and "ok nr" and "valid_header_name h"
    and "cache_put (cache e) k (modifiedResponse h now nr) = Inr c"
  shows "fst (fetch_deduped net now h r k e) = Returned nr
       \<and> cache (snd (fetch_deduped net now h r k e)) = c"
proof -
  obtain d e1 where en: "dedupe_enter now (url k) e = (Inr d, e1)"
    using assms(1) by (simp add: dedupe_enter_def Let_def)
  have c1: "cache e1 = cache e"
    by (rule cache_dedupe_enter [OF en])
  obtain e2 where f: "fetchAndStoreInCache net now h r k e1 = (Inr nr, e2)" and c2: "cache e2 = c"
    using assms(2-5) c1 by (simp add: fetchAndStoreInCache_def Let_def)
  obtain e3 where s: "dedupe_settle (url k) d (Inr nr) e2 = (Inr nr, e3)"
    by (simp add: dedupe_settle_def)
  from cache_dedupe_settle [OF s] c2 have "cache e3 = c" by simp
  with en f s show ?thesis
    by (simp add: fetch_deduped_def)
qed

lemma cache_fetchAndStore:
  "fetchAndStoreInCache net now h r k e = (x, e') \<Longrightarrow> entry \<in> set (cache e') \<Longrightarrow>
     entry \<in> set (cache e) \<or> (fst entry = k \<and> method k = ''GET'')"
  by (auto simp: fetchAndStoreInCache_def cache_put_def Let_def split: sum.splits if_splits)

lemma cache_fetch_deduped:
  assumes "fetch_deduped net now h r k e = (out, e')" and "entry \<in> set (cache e')"
  shows "entry \<in> set (cache e) \<or> (fst entry = k \<and> method k = ''GET'')"
proof (cases "dedupe_enter now (url k) e")
  case (Pair x e1)
  note c1 = cache_dedupe_enter [OF Pair]
  show ?thesis
  proof (cases x)
    case (Inl d)
    with assms Pair c1 show ?thesis by (simp add: fetch_deduped_def)
  next
    case (Inr d)
    obtain fo e2 where f: "fetchAndStoreInCache net now h r k e1 = (fo, e2)"
      by (cases "fetchAndStoreInCache net now h r k e1")
    obtain res e3 where s: "dedupe_settle (url k) d fo e2 = (res, e3)"
      by (cases "dedupe_settle (url k) d fo e2")
    from assms Pair Inr f s have "e' = e3"
      by (auto simp: fetch_deduped_def split: sum.splits)
    with cache_dedupe_settle [OF s] assms(2) have "entry \<in> set (cache e2)" by simp
    from cache_fetchAndStore [OF f this] c1 show ?thesis by simp
  qed
qed

lemma set_cache_delete: "set (cache_delete c k) \<subseteq> set c"
  by (auto simp: cache_delete_def)


lemma getResponse_fetches_without_servable_entry:
  assumes cfg: "resolveRequestSettings (current e) r [] = Some cfg"
    and key: "buildCacheKeyRequest P r (case keyHeaders cfg of None \<Rightarrow> [] | Some hs \<Rightarrow> hs) = Inr k"
    and h: "valid_header_name h"
    and stale: "\<forall>stored. cache_match (cache e) k = Some stored \<longrightarrow>
                  \<not> served_at now (to_number (headers_get (rheaders stored) h))"
    and free: "inFlightRequests e (url k) = None"
    and net: "net r = Inr nr" and ok: "ok nr" and partial: "status nr \<noteq> 206"
    and vary: "''*'' \<notin> set (vary_fields (modifiedResponse h now nr))"
  shows "fst (getResponse P net now h r e) = Returned nr
       \<and> cache_match (cache (snd (getResponse P net now h r e))) k
           = Some (modifiedResponse h now nr)"
proof -
  let ?st = "modifiedResponse h now nr"
  from build_method [OF key] have get: "method k = ''GET''" by simp
  have run: "fst (fetch_deduped net now h r k e0) = Returned nr
       \<and> cache_match (cache (snd (fetch_deduped net now h r k e0))) k = Some ?st"
    if "inFlightRequests e0 (url k) = None" for e0
  proof -
    let ?c = "filter (\<lambda>entry. \<not> request_matches k entry) (cache e0) @ [(k, ?st)]"
    have "status ?st = status nr"
      by (simp add: modifiedResponse_def)
    then have "cache_put (cache e0) k ?st = Inr ?c"
      using get partial vary by (simp add: cache_put_def)
    from fetch_deduped_stores [where net = net and r = r, OF that net ok h this]
      cache_match_after_put [OF get]
    show ?thesis by simp
  qed
  show ?thesis
  proof (cases "cache_match (cache e) k")
    case None
    with cfg key have "getResponse P net now h r e
        = fetch_deduped net now h r k (logger ''log'' ''get-response'' e)"
      by (simp add: getResponse_def)
    with run [of "logger ''log'' ''get-response'' e"] free show ?thesis
      by simp
  next
    case (Some old)
    with stale have "\<not> served_at now (to_number (headers_get (rheaders old) h))"
      by simp
    with cfg key h Some have "getResponse P net now h r e
        = fetch_deduped net now h r k
            (logger ''log'' ''get-response'' (e\<lparr>cache := cache_delete (cache e) k\<rparr>))"
      by (simp add: getResponse_def)
    with run [of "logger ''log'' ''get-response'' (e\<lparr>cache := cache_delete (cache e) k\<rparr>)"] free
    show ?thesis
      by simp
  qed
qed

lemma getResponse_served_without_fetch:
  assumes g: "getResponse P net now h r e = (Returned resp, e')" and nf: "fetched e' = fetched e"
  shows "\<exists>hs key. buildCacheKeyRequest P r hs = Inr key \<and> method key = ''GET''
                  \<and> cache_match (cache e) key = Some resp"
proof (cases "resolveRequestSettings (current e) r []")
  case None
  with g have "fetched e' = fetched e @ [r]"
    by (auto simp: getResponse_def)
  with nf show ?thesis by simp
next
  case (Some cfg)
  define hs where "hs = (case keyHeaders cfg of None \<Rightarrow> [] | Some hs \<Rightarrow> hs)"
  show ?thesis
  proof (cases "buildCacheKeyRequest P r hs")
    case (Inl err)
    with g Some show ?thesis by (simp add: getResponse_def hs_def)
  next
    case (Inr key)
    from build_method [OF Inr] have get: "method key = ''GET''" by simp
    have no: False if "fetch_deduped net now h r key e0 = (Returned resp, e')"
      and "fetched e0 = fetched e" for e0
      using fetched_fetch_deduped [OF that(1)] that(2) nf by simp
    show ?thesis
    proof (cases "cache_match (cache e) key")
      case None
      with g Some Inr have "fetch_deduped net now h r key (logger ''log'' ''get-response'' e)
          = (Returned resp, e')"
        by (simp add: getResponse_def hs_def)
      from no [OF this] show ?thesis by simp
    next
      case (Some stored)
      show ?thesis
      proof (cases "valid_header_name h \<and> served_at now (to_number (headers_get (rheaders stored) h))")
        case True
        with g \<open>resolveRequestSettings (current e) r [] = Some cfg\<close> Inr Some
        have "resp = stored"
          by (simp add: getResponse_def hs_def)
        with Inr get Some show ?thesis by blast
      next
        case False
        with g \<open>resolveRequestSettings (current e) r [] = Some cfg\<close> Inr Some
        have "fetch_deduped net now h r key
                (logger ''log'' ''get-response'' (e\<lparr>cache := cache_delete (cache e) key\<rparr>))
              = (Returned resp, e')"
          by (auto simp: getResponse_def hs_def split: if_splits)
        from no [OF this] show ?thesis by simp
      qed
    qed
  qed
qed

lemma getResponse_adds_under_key:
  assumes g: "getResponse P net now h r e = (out, e')" and m: "entry \<in> set (cache e')"
  shows "entry \<in> set (cache e) \<or>
        (method (fst entry) = ''GET'' \<and> (\<exists>hs. buildCacheKeyRequest P r hs = Inr (fst entry)))"
proof (cases "resolveRequestSettings (current e) r []")
  case None
  with g m show ?thesis by (auto simp: getResponse_def)
next
  case (Some cfg)
  define hs where "hs = (case keyHeaders cfg of None \<Rightarrow> [] | Some hs \<Rightarrow> hs)"
  show ?thesis
  proof (cases "buildCacheKeyRequest P r hs")
    case (Inl err)
    with g m Some show ?thesis by (auto simp: getResponse_def hs_def)
  next
    case (Inr key)
    have step: "entry \<in> set (cache e0) \<or> (fst entry = key \<and> method key = ''GET'')"
      if "fetch_deduped net now h r key e0 = (out, e')" for e0
      using cache_fetch_deduped [OF that m] .
    from g Some Inr consider
        (served) "cache e' = cache e"
      | (stale) "fetch_deduped net now h r key
                   (logger ''log'' ''get-response'' (e\<lparr>cache := cache_delete (cache e) key\<rparr>)) = (out, e')"
      | (miss) "fetch_deduped net now h r key (logger ''log'' ''get-response'' e) = (out, e')"
      by (auto simp: getResponse_def hs_def split: option.splits if_splits)
    then show ?thesis
    proof cases
      case served
      with m show ?thesis by simp
    next
      case stale
      from step [OF stale] set_cache_delete [of "cache e" key] Inr show ?thesis by auto
    next
      case miss
      from step [OF miss] Inr show ?thesis by auto
    qed
  qed
qed

text \<open>
  C10. Every key request built by \<open>buildCacheKeyRequest\<close> has the method \<open>GET\<close>,
  whatever the method of the original request, and the original method is the value of
  the one query parameter \<open>__method\<close> of the key. The response store takes and matches
  only \<open>GET\<close> requests: under a key request with another method \<open>put\<close> is refused and
  \<open>match\<close> finds nothing. Responses are stored and matched under these \<open>GET\<close> key
  requests: every entry that \<open>getResponse\<close> adds to the response store is stored under a
  \<open>GET\<close> key request built from the request; a response that \<open>getResponse\<close> returns
  without fetching is the one the store matches under such a key request; a stored entry
  that the store matches under the key request, with a timestamp not in the future, is
  what \<open>getResponse\<close> returns; and when no such entry is there and the network answers
  with a storable response, \<open>getResponse\<close> returns it and the store afterwards matches
  the stamped copy under the key request.
\<close>

theorem cache_key_request_is_GET:
  "(buildCacheKeyRequest P r khs = Inr k \<longrightarrow>
      method k = ''GET'' \<and>
      filter (\<lambda>p. fst p = ''__method'') (searchParams (url k)) = [(''__method'', method r)])
   \<and> (m \<noteq> ''GET'' \<longrightarrow>
        cache_put c (k\<lparr>method := m\<rparr>) resp = Inl PutNonGet
        \<and> cache_match c (k\<lparr>method := m\<rparr>) = None)
   \<and> (getResponse P net now h r e = (out, e') \<longrightarrow>
        (\<forall>entry \<in> set (cache e').
           entry \<in> set (cache e) \<or>
           (method (fst entry) = ''GET'' \<and> (\<exists>hs. buildCacheKeyRequest P r hs = Inr (fst entry)))))
   \<and> (getResponse P net now h r e = (Returned resp, e') \<and> fetched e' = fetched e \<longrightarrow>
        (\<exists>hs key. buildCacheKeyRequest P r hs = Inr key \<and> method key = ''GET''
                  \<and> cache_match (cache e) key = Some resp))
   \<and> (resolveRequestSettings (current e) r [] = Some cfg
        \<and> buildCacheKeyRequest P r (case keyHeaders cfg of None \<Rightarrow> [] | Some hs \<Rightarrow> hs) = Inr k
        \<and> valid_header_name h
        \<and> cache_match (cache e) k = Some resp
        \<and> served_at now (to_number (headers_get (rheaders resp) h))
      \<longrightarrow> getResponse P net now h r e = (Returned resp, logger ''log'' ''get-response'' e))
   \<and> (resolveRequestSettings (current e) r [] = Some cfg
        \<and> buildCacheKeyRequest P r (case keyHeaders cfg of None \<Rightarrow> [] | Some hs \<Rightarrow> hs) = Inr k
        \<and> valid_header_name h
        \<and> (\<forall>stored. cache_match (cache e) k = Some stored \<longrightarrow>
               \<not> served_at now (to_number (headers_get (rheaders stored) h)))
        \<and> inFlightRequests e (url k) = None
        \<and> net r = Inr nr \<and> ok nr \<and> status nr \<noteq> 206
        \<and> ''*'' \<notin> set (vary_fields
               (modifiedResponse h now nr))
      \<longrightarrow> fst (getResponse P net now h r e) = Returned nr
          \<and> cache_match (cache (snd (getResponse P net now h r e))) k
              = Some (modifiedResponse h now nr))"
proof (intro conjI impI ballI)
  assume "buildCacheKeyRequest P r khs = Inr k"
  from build_method [OF this] show "method k = ''GET''" by simp
next
  assume "buildCacheKeyRequest P r khs = Inr k"
  from build_method [OF this] show
    "filter (\<lambda>p. fst p = ''__method'') (searchParams (url k)) = [(''__method'', method r)]"
    by (simp add: key_params_method)
next
  assume "m \<noteq> ''GET''"
  then show "cache_put c (k\<lparr>method := m\<rparr>) resp = Inl PutNonGet"
    by (simp add: cache_put_def)
next
  assume "m \<noteq> ''GET''"
  then show "cache_match c (k\<lparr>method := m\<rparr>) = None"
    by (simp add: cache_match_def)
next
  fix entry
  assume "getResponse P net now h r e = (out, e')" and "entry \<in> set (cache e')"
  then show "entry \<in> set (cache e) \<or>
        (method (fst entry) = ''GET'' \<and> (\<exists>hs. buildCacheKeyRequest P r hs = Inr (fst entry)))"
    by (rule getResponse_adds_under_key)
next
  assume "getResponse P net now h r e = (Returned resp, e') \<and> fetched e' = fetched e"
  then show "\<exists>hs key. buildCacheKeyRequest P r hs = Inr key \<and> method key = ''GET''
                  \<and> cache_match (cache e) key = Some resp"
    using getResponse_served_without_fetch by blast
next
  assume "resolveRequestSettings (current e) r [] = Some cfg
        \<and> buildCacheKeyRequest P r (case keyHeaders cfg of None \<Rightarrow> [] | Some hs \<Rightarrow> hs) = Inr k
        \<and> valid_header_name h
        \<and> cache_match (cache e) k = Some resp
        \<and> served_at now (to_number (headers_get (rheaders resp) h))"
  then show "getResponse P net now h r e = (Returned resp, logger ''log'' ''get-response'' e)"
    by (simp add: getResponse_def)
next
  assume a: "resolveRequestSettings (current e) r [] = Some cfg
        \<and> buildCacheKeyRequest P r (case keyHeaders cfg of None \<Rightarrow> [] | Some hs \<Rightarrow> hs) = Inr k
        \<and> valid_header_name h
        \<and> (\<forall>stored. cache_match (cache e) k = Some stored \<longrightarrow>
               \<not> served_at now (to_number (headers_get (rheaders stored) h)))
        \<and> inFlightRequests e (url k) = None
        \<and> net r = Inr nr \<and> ok nr \<and> status nr \<noteq> 206
        \<and> ''*'' \<notin> set (vary_fields
               (modifiedResponse h now nr))"
  have b: "fst (getResponse P net now h r e) = Returned nr
          \<and> cache_match (cache (snd (getResponse P net now h r e))) k
              = Some (modifiedResponse h now nr)"
    by (rule getResponse_fetches_without_servable_entry [where cfg = cfg and net = net])
       (use a in simp_all)
  from b show "fst (getResponse P net now h r e) = Returned nr" by simp
  from b show "cache_match (cache (snd (getResponse P net now h r e))) k
              = Some (modifiedResponse h now nr)"
    by simp
qed

theorem cache_key_request_is_GET_witness:
  "buildCacheKeyRequest sample_platform post_users [] = Inr post_users_key
   \<and> method post_users_key = ''GET''
   \<and> filter (\<lambda>p. fst p = ''__method'') (searchParams (url post_users_key)) = [(''__method'', ''POST'')]
   \<and> cache_put [] (post_users_key\<lparr>method := ''POST''\<rparr>) (stored_at ''0'') = Inl PutNonGet
   \<and> cache_match (cache (with_entry ttl_policy get_users_key ''0'')) get_users_key = Some (stored_at ''0'')
   \<and> fst (getResponse sample_platform ok_net 100000 cacheTimestampHeader get_users
             (with_entry ttl_policy get_users_key ''0'')) = Returned (stored_at ''0'')
   \<and> cache_match (cache (idle_engine\<lparr>current := Some ttl_policy\<rparr>)) post_users_key = None
   \<and> fst (getResponse sample_platform ok_net 5000 cacheTimestampHeader post_users
             (idle_engine\<lparr>current := Some ttl_policy\<rparr>))
       = Returned \<lparr> status = 200, rheaders = [], rbody = ''fresh'' \<rparr>
   \<and> cache_match (cache (snd (getResponse sample_platform ok_net 5000 cacheTimestampHeader post_users
                    (idle_engine\<lparr>current := Some ttl_policy\<rparr>)))) post_users_key
       = Some \<lparr> status = 200, rheaders = [(''x-cache-timestamp'', ''5000'')], rbody = ''fresh'' \<rparr>
   \<and> (\<exists>hs. buildCacheKeyRequest sample_platform post_users hs = Inr post_users_key)"
proof -
  let ?e = "idle_engine\<lparr>current := Some ttl_policy\<rparr>"
  let ?w = "with_entry ttl_policy get_users_key ''0''"
  let ?g = "getResponse sample_platform ok_net 5000 cacheTimestampHeader post_users ?e"
  let ?cfg = "\<lparr> lastModified = None, ttl = Some 60000, keyHeaders = Some [], prefetch = Some Never \<rparr>"
  let ?nr = "\<lparr> status = 200, rheaders = [], rbody = ''fresh'' \<rparr>"
  let ?st = "\<lparr> status = 200, rheaders = [(''x-cache-timestamp'', ''5000'')], rbody = ''fresh'' \<rparr>"
  have built: "buildCacheKeyRequest sample_platform post_users [] = Inr post_users_key"
    by code_simp
  have built_get: "buildCacheKeyRequest sample_platform get_users [] = Inr get_users_key"
    by code_simp
  have m: "method post_users = ''POST''"
    by (simp add: post_users_def)
  have valid: "valid_header_name cacheTimestampHeader"
    by code_simp
  note t = cache_key_request_is_GET [where P = sample_platform and r = post_users and khs = "[]"
      and k = post_users_key and m = "''POST''" and c = "[]" and resp = "stored_at ''0''"
      and net = ok_net and now = 5000 and h = cacheTimestampHeader and e = ?e
      and out = "fst ?g" and e' = "snd ?g" and cfg = ?cfg and nr = ?nr]
  from t built have a1: "method post_users_key = ''GET''"
    by blast
  from t built have "filter (\<lambda>p. fst p = ''__method'') (searchParams (url post_users_key))
      = [(''__method'', method post_users)]"
    by blast
  with m have a2: "filter (\<lambda>p. fst p = ''__method'') (searchParams (url post_users_key))
      = [(''__method'', ''POST'')]"
    by simp
  have "''POST'' \<noteq> ''GET''"
    by simp
  with t have a3: "cache_put [] (post_users_key\<lparr>method := ''POST''\<rparr>) (stored_at ''0'') = Inl PutNonGet"
    by blast
  have hit: "cache_match (cache ?w) get_users_key = Some (stored_at ''0'')"
    by code_simp
  have cfg_get: "resolveRequestSettings (current ?w) get_users [] = Some ?cfg"
    by code_simp
  have fresh: "served_at 100000 (to_number (headers_get (rheaders (stored_at ''0'')) cacheTimestampHeader))"
    by code_simp
  note u = cache_key_request_is_GET [where P = sample_platform and r = get_users
      and k = get_users_key and resp = "stored_at ''0''"
      and net = ok_net and now = 100000 and h = cacheTimestampHeader and e = ?w and cfg = ?cfg]
  from u cfg_get built_get valid hit fresh
  have "getResponse sample_platform ok_net 100000 cacheTimestampHeader get_users ?w
      = (Returned (stored_at ''0''), logger ''log'' ''get-response'' ?w)"
    by simp
  then have a4: "fst (getResponse sample_platform ok_net 100000 cacheTimestampHeader get_users ?w)
      = Returned (stored_at ''0'')"
    by simp
  have miss: "cache_match (cache ?e) post_users_key = None"
    by code_simp
  have cfg_post: "resolveRequestSettings (current ?e) post_users [] = Some ?cfg"
    by code_simp
  have free: "inFlightRequests ?e (url post_users_key) = None"
    by (simp add: idle_engine_def)
  have net: "ok_net post_users = Inr ?nr"
    by (simp add: ok_net_def)
  have okr: "ok ?nr" "status ?nr \<noteq> 206"
    by (simp_all add: ok_def)
  have st: "modifiedResponse cacheTimestampHeader 5000 ?nr = ?st"
    by code_simp
  have vary: "''*'' \<notin> set (vary_fields ?st)"
    by code_simp
  from t cfg_post built valid miss free net okr st vary
  have a5: "fst ?g = Returned ?nr \<and> cache_match (cache (snd ?g)) post_users_key = Some ?st"
    by simp
  have ran: "?g = (fst ?g, snd ?g)"
    by simp
  have stored: "cache (snd ?g) = [(post_users_key, ?st)]"
    by code_simp
  have before: "cache ?e = []"
    by (simp add: idle_engine_def)
  from t ran have "\<forall>entry \<in> set (cache (snd ?g)).
      entry \<in> set (cache ?e) \<or>
      (method (fst entry) = ''GET'' \<and>
       (\<exists>hs. buildCacheKeyRequest sample_platform post_users hs = Inr (fst entry)))"
    by blast
  with stored before have a6: "\<exists>hs. buildCacheKeyRequest sample_platform post_users hs = Inr post_users_key"
    by simp
  from built a1 a2 a3 hit a4 miss a5 a6 show ?thesis
    by (intro conjI) simp_all
qed

subsection \<open>Stability of the key under reordering\<close>

lemma same_order_per_nameD:
  assumes "same_order_per_name xs ys"
  shows "filter (\<lambda>p. fst p = n) xs = filter (\<lambda>p. fst p = n) ys"
proof (cases "n \<in> fst ` set (xs @ ys)")
  case True
  with assms show ?thesis
    unfolding same_order_per_name_def list_all_iff by auto
next
  case False
  then have "filter (\<lambda>p. fst p = n) xs = []" and "filter (\<lambda>p. fst p = n) ys = []"
    by (auto simp: filter_empty_conv)
  then show ?thesis by simp
qed

lemma same_order_per_nameI:
  "(\<And>n. filter (\<lambda>p. fst p = n) xs = filter (\<lambda>p. fst p = n) ys) \<Longrightarrow> same_order_per_name xs ys"
  by (simp add: same_order_per_name_def list_all_iff)

lemma filter_eq_narrow: "filter ((=) x) (filter (\<lambda>p. fst p = fst x) zs) = filter ((=) x) zs"
proof -
  have "filter (\<lambda>y. fst y = fst x \<and> x = y) zs = filter ((=) x) zs"
    by (rule filter_cong) auto
  then show ?thesis
    by (simp only: filter_filter)
qed

lemma per_name_mset:
  assumes "\<And>n. filter (\<lambda>p. fst p = n) xs = filter (\<lambda>p. fst p = n) (ys :: (string \<times> 'a) list)"
  shows "mset xs = mset ys"
proof (rule multiset_eqI)
  fix x :: "string \<times> 'a"
  have "filter ((=) x) xs = filter ((=) x) (filter (\<lambda>p. fst p = fst x) xs)"
    by (rule filter_eq_narrow [symmetric])
  also have "\<dots> = filter ((=) x) (filter (\<lambda>p. fst p = fst x) ys)"
    by (simp only: assms [of "fst x"])
  also have "\<dots> = filter ((=) x) ys"
    by (rule filter_eq_narrow)
  finally have e: "filter ((=) x) xs = filter ((=) x) ys" .
  show "count (mset xs) x = count (mset ys) x"
    by (simp only: count_mset count_list_eq_length_filter e)
qed

lemma per_name_sp_sort:
  assumes "\<And>n. filter (\<lambda>p. fst p = n) xs = filter (\<lambda>p. fst p = n) ys"
  shows "sp_sort xs = sp_sort ys"
  unfolding sp_sort_def
proof (rule properties_for_sort_key)
  show "mset (sort_key fst ys) = mset xs"
    using per_name_mset [OF assms] by simp
  show "sorted (map fst (sort_key fst ys))"
    by simp
  fix k
  have "filter (\<lambda>x. fst x = fst k) (sort_key fst ys) = filter (\<lambda>x. fst x = fst k) xs"
    using assms [of "fst k"] by (simp add: sort_key_stable)
  then show "filter (\<lambda>x. fst k = fst x) (sort_key fst ys) = filter (\<lambda>x. fst k = fst x) xs"
    by (simp add: eq_commute)
qed

lemma per_name_sp_set:
  assumes "\<And>n. filter (\<lambda>p. fst p = n) xs = filter (\<lambda>p. fst p = n) ys"
  shows "filter (\<lambda>p. fst p = m) (sp_set n v xs) = filter (\<lambda>p. fst p = m) (sp_set n v ys)"
  by (cases "n = m") (simp_all add: filter_sp_set_same filter_sp_set_other assms)

lemma per_name_foldl_sp_set:
  assumes "\<And>n. filter (\<lambda>p. fst p = n) xs = filter (\<lambda>p. fst p = n) ys"
  shows "filter (\<lambda>p. fst p = m) (foldl (\<lambda>acc h. sp_set (f h) (g h) acc) xs hs)
       = filter (\<lambda>p. fst p = m) (foldl (\<lambda>acc h. sp_set (f h) (g h) acc) ys hs)"
  using assms
proof (induction hs arbitrary: xs ys m)
  case Nil
  then show ?case by simp
next
  case (Cons h hs)
  show ?case
    unfolding foldl_Cons
    by (rule Cons.IH) (rule per_name_sp_set, rule Cons.prems)
qed

lemma headers_get_lower_names:
  "headers_get hs n =
     (let vs = map snd (filter (\<lambda>p. fst p = toLowerCase n) (lower_names hs))
      in if vs = [] then None else Some (join '', '' vs))"
proof -
  have "map snd (filter (\<lambda>p. fst p = m) (lower_names hs))
      = map snd (filter (\<lambda>p. toLowerCase (fst p) = m) hs)" for m
    by (induction hs) (simp_all add: lower_names_def)
  then show ?thesis
    by (simp add: headers_get_def)
qed

lemma same_order_headers_get:
  assumes "same_order_per_name (lower_names hs) (lower_names hs')"
  shows "headers_get hs n = headers_get hs' n"
  unfolding headers_get_lower_names
  using same_order_per_nameD [OF assms, of "toLowerCase n"] by simp

lemma key_params_cong:
  assumes q: "same_order_per_name ps ps'"
    and h: "same_order_per_name (lower_names (headers r)) (lower_names (headers r'))"
    and m: "method r' = method r"
  shows "key_params r khs b ps = key_params r' khs b ps'"
proof -
  have hg: "headers_get (headers r') n = headers_get (headers r) n" for n
    using same_order_headers_get [OF h] by simp
  let ?start = "\<lambda>ps. sp_set (keySearchParamPrefix @ ''method'') (method r)
                  (sp_set (keySearchParamPrefix @ ''body'') (or_else (Some b) ''none'') ps)"
  have "filter (\<lambda>p. fst p = n) (?start ps) = filter (\<lambda>p. fst p = n) (?start ps')" for n
    by (intro per_name_sp_set same_order_per_nameD [OF q])
  then show ?thesis
    unfolding key_params_def m hg
    by (intro per_name_sp_sort per_name_foldl_sp_set)
qed

lemma sortedBody_reordered:
  assumes d: "distinct (map fst xs)" and m: "mset xs = mset ys"
  shows "sortedBody (JObj xs) = sortedBody (JObj ys)"
proof -
  from m have mk: "mset (map fst xs) = mset (map fst ys)"
    by (metis mset_map)
  with d have d': "distinct (map fst ys)"
    by (metis mset_eq_imp_distinct_iff)
  have keys: "sort (map fst xs) = sort (map fst ys)"
    by (rule properties_for_sort) (simp_all add: m)
  from m have "set xs = set ys"
    by (rule mset_eq_setD)
  with d d' have "map_of xs = map_of ys"
    by (simp add: map_of_inject_set)
  with keys show ?thesis
    by (simp add: sortedBody_def)
qed

lemma reordered_json_bodyE:
  assumes "reordered_json_body P r r'"
  obtains b b' xs ys where "body r = Some b" "body r' = Some b'"
    and "json_parse P b = Some (JObj xs)" "json_parse P b' = Some (JObj ys)"
    and "distinct (map fst xs)" and "mset xs = mset ys"
proof -
  from assms obtain b b' where b: "body r = Some b" "body r' = Some b'"
    by (cases "body r"; cases "body r'") (simp_all add: reordered_json_body_def)
  with assms obtain j where j1: "json_parse P b = Some j"
    by (cases "json_parse P b") (simp_all add: reordered_json_body_def)
  with assms b obtain xs where xs: "j = JObj xs"
    by (cases j) (simp_all add: reordered_json_body_def)
  with assms b j1 obtain j' where j2: "json_parse P b' = Some j'"
    by (cases "json_parse P b'") (simp_all add: reordered_json_body_def)
  with assms b j1 xs obtain ys where ys: "j' = JObj ys"
    by (cases j') (simp_all add: reordered_json_body_def)
  note j = j1 j2
  from assms b j xs ys have "distinct (map fst xs)" "mset xs = mset ys"
    by (simp_all add: reordered_json_body_def)
  with b j xs ys that show thesis
    by blast
qed

lemma serialize_cong:
  assumes s: "same_up_to_order P r r'"
  shows "serializeRequestBodyForKey P r' = serializeRequestBodyForKey P r"
proof -
  from s have m: "method r' = method r"
    and h: "same_order_per_name (lower_names (headers r)) (lower_names (headers r'))"
    by (simp_all add: same_up_to_order_def)
  have hg: "headers_get (headers r') n = headers_get (headers r) n" for n
    using same_order_headers_get [OF h] by simp
  from s consider (same) "body r' = body r"
    | (json) "str_includes (or_else (headers_get (headers r) ''content-type'') []) ''application/json''"
             "reordered_json_body P r r'"
    by (auto simp: same_up_to_order_def)
  then show ?thesis
  proof cases
    case same
    then show ?thesis
      by (simp add: serializeRequestBodyForKey_def Let_def m hg)
  next
    case json
    from json(2) obtain b b' xs ys where
      b: "body r = Some b" "body r' = Some b'"
      and p: "json_parse P b = Some (JObj xs)" "json_parse P b' = Some (JObj ys)"
      and d: "distinct (map fst xs)" and e: "mset xs = mset ys"
      by (rule reordered_json_bodyE)
    from sortedBody_reordered [OF d e] json(1) b p show ?thesis
      by (simp add: serializeRequestBodyForKey_def Let_def m hg)
  qed
qed

lemma cache_key_cong:
  assumes s: "same_up_to_order P r r'"
  shows "cache_key P r khs = cache_key P r' khs"
proof -
  from s have m: "method r' = method r"
    and o: "origin (url r') = origin (url r)"
    and pn: "pathname (url r') = pathname (url r)"
    and q: "same_order_per_name (searchParams (url r)) (searchParams (url r'))"
    and h: "same_order_per_name (lower_names (headers r)) (lower_names (headers r'))"
    by (simp_all add: same_up_to_order_def)
  have np: "getNormalizedPathname (url r') = getNormalizedPathname (url r)"
    by (simp add: getNormalizedPathname_def pn)
  have kp: "key_params r khs b (searchParams (url r)) = key_params r' khs b (searchParams (url r'))" for b
    by (rule key_params_cong [OF q h m])
  have u: "(url r)\<lparr>pathname := p, searchParams := ps\<rparr> = (url r')\<lparr>pathname := p, searchParams := ps\<rparr>" for p ps
    using o by (cases "url r"; cases "url r'") simp
  show ?thesis
    unfolding cache_key_def buildCacheKeyRequest_def serialize_cong [OF s] np
    by (simp add: Let_def set_pathname_def kp u split: sum.splits)
qed

lemma filter_foldl_header_set:
  assumes "h \<in> set hs" and inj: "\<And>a b. f a = f b \<Longrightarrow> a = b"
  shows "filter (\<lambda>p. fst p = f h) (foldl (\<lambda>acc k. sp_set (f k) (g k) acc) ps hs) = [(f h, g h)]"
  using assms(1)
proof (induction hs arbitrary: ps rule: rev_induct)
  case Nil
  then show ?case by simp
next
  case (snoc k ks)
  show ?case
  proof (cases "k = h")
    case True
    then show ?thesis by (simp add: filter_sp_set_same)
  next
    case False
    with inj have "f k \<noteq> f h" by blast
    moreover from snoc.prems False have "h \<in> set ks" by simp
    ultimately show ?thesis
      by (simp add: filter_sp_set_other snoc.IH)
  qed
qed

lemma key_params_header:
  assumes "h \<in> set khs"
  shows "filter (\<lambda>p. fst p = ''__header-'' @ h) (key_params r khs b ps)
       = [(''__header-'' @ h, or_else (headers_get (headers r) h) ''none'')]"
proof -
  have "filter (\<lambda>p. fst p = keySearchParamPrefix @ ''header-'' @ h)
          (foldl (\<lambda>acc k. sp_set (keySearchParamPrefix @ ''header-'' @ k)
                               (or_else (headers_get (headers r) k) ''none'') acc) qs khs)
        = [(keySearchParamPrefix @ ''header-'' @ h, or_else (headers_get (headers r) h) ''none'')]" for qs
    by (rule filter_foldl_header_set [where f = "\<lambda>k. keySearchParamPrefix @ ''header-'' @ k"])
       (use assms in simp_all)
  then show ?thesis
    by (simp add: key_params_def filter_sp_sort keySearchParamPrefix_def)
qed

lemma build_params:
  "buildCacheKeyRequest P r khs = Inr k \<Longrightarrow>
     \<exists>b. searchParams (url k) = key_params r khs b (searchParams (url r))"
  by (auto simp: buildCacheKeyRequest_def Let_def set_pathname_def split: sum.splits if_splits)

lemma cache_key_distinct:
  assumes k: "buildCacheKeyRequest P r khs = Inr k" and k': "buildCacheKeyRequest P r' khs = Inr k'"
    and h: "h \<in> set khs"
    and ne: "or_else (headers_get (headers r) h) ''none'' \<noteq> or_else (headers_get (headers r') h) ''none''"
  shows "url k \<noteq> url k'"
proof
  assume same: "url k = url k'"
  define n where "n = ''__header-'' @ h"
  from build_params [OF k] obtain b
    where p: "searchParams (url k) = key_params r khs b (searchParams (url r))" ..
  from build_params [OF k'] obtain b'
    where p': "searchParams (url k') = key_params r' khs b' (searchParams (url r'))" ..
  have "filter (\<lambda>p. fst p = n) (searchParams (url k)) = [(n, or_else (headers_get (headers r) h) ''none'')]"
    unfolding p n_def by (rule key_params_header [OF h])
  moreover
  have "filter (\<lambda>p. fst p = n) (searchParams (url k')) = [(n, or_else (headers_get (headers r') h) ''none'')]"
    unfolding p' n_def by (rule key_params_header [OF h])
  ultimately show False
    using ne same by simp
qed


text \<open>
  C3 (amended). Two requests that differ only in the order of the top-level keys of a
  JSON body (with a JSON content type), in the order of query parameters of different
  names, or in the order of headers of different names, have the same cache key: the
  pairs of one name must keep their order. Two requests for which a header listed in
  \<open>keyHeaders\<close> has different values, an absent or empty value counting as \<open>none\<close>,
  have different cache keys.
\<close>

theorem cache_key_reordering:
  "(same_up_to_order P r r' \<longrightarrow> cache_key P r khs = cache_key P r' khs)
   \<and> (cache_key P r khs = Inr u \<and> cache_key P r' khs = Inr u' \<and> h \<in> set khs
        \<and> or_else (headers_get (headers r) h) ''none'' \<noteq> or_else (headers_get (headers r') h) ''none''
      \<longrightarrow> u \<noteq> u')"
proof (intro conjI impI)
  assume "same_up_to_order P r r'"
  then show "cache_key P r khs = cache_key P r' khs"
    by (rule cache_key_cong)
next
  assume a: "cache_key P r khs = Inr u \<and> cache_key P r' khs = Inr u' \<and> h \<in> set khs
     \<and> or_else (headers_get (headers r) h) ''none'' \<noteq> or_else (headers_get (headers r') h) ''none''"
  then obtain k where k: "buildCacheKeyRequest P r khs = Inr k" "u = url k"
    by (cases "buildCacheKeyRequest P r khs") (auto simp: cache_key_def)
  from a obtain k' where k': "buildCacheKeyRequest P r' khs = Inr k'" "u' = url k'"
    by (cases "buildCacheKeyRequest P r' khs") (auto simp: cache_key_def)
  from a have "h \<in> set khs"
    and "or_else (headers_get (headers r) h) ''none'' \<noteq> or_else (headers_get (headers r') h) ''none''"
    by simp_all
  from cache_key_distinct [OF k(1) k'(1) this] k(2) k'(2) show "u \<noteq> u'"
    by simp
qed

theorem cache_key_reordering_witness:
  "same_up_to_order sample_platform json_a json_b
   \<and> cache_key sample_platform json_a [''X-Tenant''] = Inr (json_key ''t1'')
   \<and> cache_key sample_platform json_b [''X-Tenant''] = Inr (json_key ''t1'')
   \<and> cache_key sample_platform json_c [''X-Tenant''] = Inr (json_key ''t2'')
   \<and> or_else (headers_get (headers json_a) ''X-Tenant'') ''none'' = ''t1''
   \<and> or_else (headers_get (headers json_c) ''X-Tenant'') ''none'' = ''t2''
   \<and> json_key ''t1'' \<noteq> json_key ''t2''"
proof -
  have s: "same_up_to_order sample_platform json_a json_b"
    by code_simp
  have a: "cache_key sample_platform json_a [''X-Tenant''] = Inr (json_key ''t1'')"
    by code_simp
  have c: "cache_key sample_platform json_c [''X-Tenant''] = Inr (json_key ''t2'')"
    by code_simp
  have ha: "or_else (headers_get (headers json_a) ''X-Tenant'') ''none'' = ''t1''"
    by code_simp
  have hc: "or_else (headers_get (headers json_c) ''X-Tenant'') ''none'' = ''t2''"
    by code_simp
  note t = cache_key_reordering [where P = sample_platform and r = json_a and r' = json_b
      and khs = "[''X-Tenant'']"]
  from t s a have b: "cache_key sample_platform json_b [''X-Tenant''] = Inr (json_key ''t1'')"
    by simp
  note t' = cache_key_reordering [where P = sample_platform and r = json_a and r' = json_c
      and khs = "[''X-Tenant'']" and u = "json_key ''t1''" and u' = "json_key ''t2''"
      and h = "''X-Tenant''"]
  from t' a c ha hc have d: "json_key ''t1'' \<noteq> json_key ''t2''"
    by simp
  from s a b c ha hc d show ?thesis
    by (intro conjI)
qed

text \<open>
  The statement of the specification fails twice. Two \<open>GET\<close> requests whose query parameters are
  \<open>a=1&a=2\<close> and \<open>a=2&a=1\<close> differ only in the order of the parameters and have
  different keys, since the sort is stable. Two requests whose header \<open>X-Tenant\<close> is
  \<open>none\<close> in one and empty in the other have the same key.
\<close>

theorem cache_key_reordering_counterexample:
  "mset (searchParams (url dup_a)) = mset (searchParams (url dup_b))
   \<and> dup_b = dup_a\<lparr>url := (url dup_a)\<lparr>searchParams := rev (searchParams (url dup_a))\<rparr>\<rparr>
   \<and> cache_key sample_platform dup_a [] \<noteq> cache_key sample_platform dup_b []
   \<and> headers_get (headers tenant_none) ''X-Tenant'' = Some ''none''
   \<and> headers_get (headers tenant_empty) ''X-Tenant'' = Some []
   \<and> cache_key sample_platform tenant_none [''X-Tenant'']
       = cache_key sample_platform tenant_empty [''X-Tenant'']"
  by code_simp

section \<open>Key reversal\<close>

text \<open>
  C4. The key of \<open>POST /users?page=1\<close> without key headers is the \<open>GET\<close> request with
  the parameters \<open>__body\<close>, \<open>__method\<close>, \<open>page\<close>. Reverting it deletes \<open>__body\<close> at index
  0, which moves \<open>__method\<close> to index 0 while the iterator goes on at index 1: the
  reverted request keeps the parameter \<open>__method=POST\<close>, and its method is the key's
  \<open>GET\<close>, not the original \<open>POST\<close>.
\<close>

theorem revertCacheKeyRequest_keeps_method_parameter:
  "buildCacheKeyRequest sample_platform post_users [] = Inr post_users_key
   \<and> revertCacheKeyRequest post_users_key =
       \<lparr> method = ''GET'',
         url = \<lparr> origin = ''https://api.example.com'', pathname = ''/users'',
                 searchParams = [(''__method'', ''POST''), (''page'', ''1'')] \<rparr>,
         headers = [], body = None \<rparr>"
  by code_simp

text \<open>The reverted request always has the method of the key request.\<close>

lemma revertCacheKeyRequest_method:
  "buildCacheKeyRequest P r khs = Inr k \<Longrightarrow> method (revertCacheKeyRequest k) = ''GET''"
  by (auto simp: revertCacheKeyRequest_def dest: build_method)

section \<open>Freshness at lookup and at the sweep\<close>

text \<open>A stored entry whose timestamp is not in the future is served, whatever the
  resolved settings say, and nothing is fetched.\<close>

lemma getResponse_serves_stored_entry:
  assumes "resolveRequestSettings (current e) r [] = Some cfg"
    and "buildCacheKeyRequest P r (case keyHeaders cfg of None \<Rightarrow> [] | Some hs \<Rightarrow> hs) = Inr k"
    and "cache_match (cache e) k = Some resp"
    and "valid_header_name h"
    and "served_at now (to_number (headers_get (rheaders resp) h))"
  shows "getResponse P net now h r e = (Returned resp, logger ''log'' ''get-response'' e)"
  using assms by (simp add: getResponse_def)

text \<open>
  C1. The policy gives \<open>GET /users\<close> a \<open>ttl\<close> of 60000 ms and no \<open>lastModified\<close>. The
  entry was stored at time 0 and the lookup happens at time 100000, so the entry is stale
  under the \<open>ttl\<close> rule (0 + 60000 is not above 100000). \<open>getResponse\<close> returns the stored
  entry, fetches nothing and keeps the entry.
\<close>

theorem getResponse_serves_entry_past_ttl:
  "resolveRequestSettings (Some ttl_policy) get_users [] =
     Some \<lparr> lastModified = None, ttl = Some 60000, keyHeaders = Some [], prefetch = Some Never \<rparr>
   \<and> fst (getResponse sample_platform ok_net 100000 cacheTimestampHeader get_users
             (with_entry ttl_policy get_users_key ''0'')) = Returned (stored_at ''0'')
   \<and> fetched (snd (getResponse sample_platform ok_net 100000 cacheTimestampHeader get_users
             (with_entry ttl_policy get_users_key ''0''))) = []
   \<and> cache (snd (getResponse sample_platform ok_net 100000 cacheTimestampHeader get_users
             (with_entry ttl_policy get_users_key ''0''))) = [(get_users_key, stored_at ''0'')]"
  by code_simp

text \<open>
  C2. The sweep has no clock and reads only \<open>lastModified\<close>: under the policy with a
  \<open>ttl\<close> of 60000 ms the entry stored at time 0 is kept, however late the sweep runs.
  Under the policy that gives \<open>POST /users\<close> the \<open>lastModified\<close> 2000, the entry of a
  \<open>POST\<close> request stored at time 1500 is kept as well: the reverted key request has the
  method \<open>GET\<close>, for which the policy has no settings.
\<close>

theorem deleteStaleEntries_keeps_entry_past_ttl:
  "fst (deleteStaleEntries cacheTimestampHeader (with_entry ttl_policy get_users_key ''0'')) = None
   \<and> cache (snd (deleteStaleEntries cacheTimestampHeader (with_entry ttl_policy get_users_key ''0'')))
     = [(get_users_key, stored_at ''0'')]
   \<and> resolveRequestSettings (Some lm_policy) post_users [] =
     Some \<lparr> lastModified = Some 2000, ttl = None, keyHeaders = Some [], prefetch = Some Never \<rparr>
   \<and> fst (deleteStaleEntries cacheTimestampHeader (with_entry lm_policy post_users_key ''1500'')) = None
   \<and> cache (snd (deleteStaleEntries cacheTimestampHeader (with_entry lm_policy post_users_key ''1500'')))
     = [(post_users_key, stored_at ''1500'')]"
  by code_simp

text \<open>What the sweep does do: an entry with an unparsable timestamp is logged and
  deleted, and an entry older than the \<open>lastModified\<close> of its settings is deleted.\<close>

lemma deleteStaleEntries_unparsable_and_lastModified:
  "cache (snd (deleteStaleEntries cacheTimestampHeader (with_entry ttl_policy get_users_key ''soon''))) = []
   \<and> logged (snd (deleteStaleEntries cacheTimestampHeader (with_entry ttl_policy get_users_key ''soon'')))
       = [(''warn'', ''api-cache-manager'')]
   \<and> cache (snd (deleteStaleEntries cacheTimestampHeader
         ((with_entry lm_policy get_users_key ''1500'')
            \<lparr>current := Some (lm_policy\<lparr>settings :=
               Some \<lparr> lastModified = Some 2000, ttl = None, keyHeaders = None, prefetch = None \<rparr>\<rparr>)\<rparr>))) = []"
  by code_simp

text \<open>The sweep stops with a \<open>RangeError\<close>, and deletes nothing, at an entry that is older
  than \<open>lastModified\<close> and whose timestamp is not a date.\<close>

lemma deleteStaleEntries_timestamp_not_a_date:
  "fst (deleteStaleEntries cacheTimestampHeader
     ((with_entry lm_policy get_users_key ''-Infinity'')
        \<lparr>current := Some (lm_policy\<lparr>settings :=
           Some \<lparr> lastModified = Some 2000, ttl = None, keyHeaders = None, prefetch = None \<rparr>\<rparr>)\<rparr>))
     = Some InvalidTime
   \<and> cache (snd (deleteStaleEntries cacheTimestampHeader
     ((with_entry lm_policy get_users_key ''-Infinity'')
        \<lparr>current := Some (lm_policy\<lparr>settings :=
           Some \<lparr> lastModified = Some 2000, ttl = None, keyHeaders = None, prefetch = None \<rparr>\<rparr>)\<rparr>)))
     = [(get_users_key, stored_at ''-Infinity'')]"
  by code_simp

section \<open>Deduplication on failure\<close>

text \<open>When the fetcher fails, no deferred is settled.\<close>

lemma dedupe_settle_failure_deferreds:
  "deferreds (snd (dedupe_settle key d (Inl err) e)) = deferreds e"
  by (simp add: dedupe_settle_def release_def endHeartbeat_def logger_def Let_def)

text \<open>
  C7. A first caller enters for a key and becomes the owner of deferred 0; a second
  caller enters for the same key and is handed the promise of deferred 0; the owner's
  fetcher fails. The owner's call rejects with the error, the error is logged, the key is
  no longer in flight, the heartbeat and the timeout are gone, and deferred 0 is still
  pending: nothing is left that could settle the promise the second caller awaits.
\<close>

theorem dedupe_failure_leaves_joiner_pending:
  "fst (dedupe_enter 0 users_url idle_engine) = Inr 0
   \<and> fst (dedupe_enter 5 users_url owner_entered) = Inl 0
   \<and> fst (dedupe_settle users_url 0 failed_fetch joiner_entered) = Inl (NetworkError ''Failed to fetch'')
   \<and> logged fetcher_failed = [(''log'', ''dedup''), (''error'', ''dedup'')]
   \<and> inFlightRequests fetcher_failed users_url = None
   \<and> intervals fetcher_failed = {}
   \<and> timeouts fetcher_failed = {}
   \<and> deferreds fetcher_failed = [Pending]"
  by code_simp

section \<open>The sync client\<close>

text \<open>
  C5 (amended). The sync client hands a received policy to \<open>onReceive\<close> exactly when a
  callback was given and the \<open>JSON.stringify\<close> text of the policy differs from the text
  of the last value delivered (\<open>null\<close> at first). The comparison follows the order of the
  keys. A second delivery of the same value changes nothing: identical deliveries are
  collapsed to one \<open>onReceive\<close>.
\<close>

theorem sync_client_delivery:
  assumes "has_onReceive c"
  shows "(received (triggerReceiveNewCacheConfigIfHasChanges v c) = received c @ [v]
            \<longleftrightarrow> JSON_stringify v \<noteq> JSON_stringify (currentCacheConfig c))
       \<and> (JSON_stringify v = JSON_stringify (currentCacheConfig c)
            \<longrightarrow> triggerReceiveNewCacheConfigIfHasChanges v c = c)
       \<and> JSON_stringify (currentCacheConfig (triggerReceiveNewCacheConfigIfHasChanges v c))
            = JSON_stringify v
       \<and> triggerReceiveNewCacheConfigIfHasChanges v (triggerReceiveNewCacheConfigIfHasChanges v c)
            = triggerReceiveNewCacheConfigIfHasChanges v c"
  using assms by (simp add: triggerReceiveNewCacheConfigIfHasChanges_def Let_def)

theorem sync_client_delivery_witness:
  "has_onReceive (new_client True)
   \<and> JSON_stringify (Some policy_ab) \<noteq> JSON_stringify (currentCacheConfig (new_client True))
   \<and> received (triggerReceiveNewCacheConfigIfHasChanges (Some policy_ab) (new_client True))
       = [Some policy_ab]
   \<and> received (triggerReceiveNewCacheConfigIfHasChanges (Some policy_ab)
        (triggerReceiveNewCacheConfigIfHasChanges (Some policy_ab) (new_client True)))
       = [Some policy_ab]"
proof -
  have a: "has_onReceive (new_client True)"
    by (simp add: new_client_def)
  have d: "JSON_stringify (Some policy_ab) \<noteq> JSON_stringify (currentCacheConfig (new_client True))"
    by code_simp
  have e: "received (new_client True) = []"
    by (simp add: new_client_def)
  note t = sync_client_delivery [OF a, of "Some policy_ab"]
  from t d e have r: "received (triggerReceiveNewCacheConfigIfHasChanges (Some policy_ab) (new_client True))
      = [Some policy_ab]"
    by simp
  from t have "triggerReceiveNewCacheConfigIfHasChanges (Some policy_ab)
        (triggerReceiveNewCacheConfigIfHasChanges (Some policy_ab) (new_client True))
      = triggerReceiveNewCacheConfigIfHasChanges (Some policy_ab) (new_client True)"
    by blast
  with r have r2: "received (triggerReceiveNewCacheConfigIfHasChanges (Some policy_ab)
        (triggerReceiveNewCacheConfigIfHasChanges (Some policy_ab) (new_client True)))
      = [Some policy_ab]"
    by simp
  from a d r r2 show ?thesis
    by (intro conjI)
qed

text \<open>Two policies with the same canonical form and a different order of keys are both
  delivered.\<close>

theorem sync_client_delivery_counterexample:
  "canonical policy_ab = canonical policy_ba
   \<and> received (triggerReceiveNewCacheConfigIfHasChanges (Some policy_ba)
        (triggerReceiveNewCacheConfigIfHasChanges (Some policy_ab) (new_client True)))
      = [Some policy_ab, Some policy_ba]"
  by code_simp

section \<open>The policy store\<close>

text \<open>
  C8 (amended). When the database cannot be opened while \<open>set\<close> persists a policy with a
  \<open>cacheTTL\<close>, the current policy has already been replaced in memory, and the call
  rejects with the error of the database: nothing is logged, no cleanup is scheduled and
  \<open>onSet\<close> is not called.
\<close>

theorem store_set_persistence_failure:
  assumes "idb_error e = Some err" and "truthy (cacheTTL cfg)"
  shows "fst (store_set (Some cfg) now e) = Some err
       \<and> current (snd (store_set (Some cfg) now e)) = Some cfg
       \<and> fired (snd (store_set (Some cfg) now e)) = fired e
       \<and> logged (snd (store_set (Some cfg) now e)) = logged e
       \<and> cleanupTimeoutId (snd (store_set (Some cfg) now e)) = None
       \<and> persisted (snd (store_set (Some cfg) now e)) = persisted e"
  using assms
  by (simp add: store_set_def saveConfigToIndexedDB_def clearScheduledCleanup_def Let_def
           split: option.splits)

theorem store_set_persistence_failure_witness:
  "idb_error broken_engine = Some (StoreError ''open failed'')
   \<and> truthy (cacheTTL (persist_policy (Some 3600000)))
   \<and> fst (store_set (Some (persist_policy (Some 3600000))) 0 broken_engine)
       = Some (StoreError ''open failed'')
   \<and> current (snd (store_set (Some (persist_policy (Some 3600000))) 0 broken_engine))
       = Some (persist_policy (Some 3600000))
   \<and> fired (snd (store_set (Some (persist_policy (Some 3600000))) 0 broken_engine)) = fired broken_engine
   \<and> logged (snd (store_set (Some (persist_policy (Some 3600000))) 0 broken_engine)) = logged broken_engine
   \<and> cleanupTimeoutId (snd (store_set (Some (persist_policy (Some 3600000))) 0 broken_engine)) = None
   \<and> persisted (snd (store_set (Some (persist_policy (Some 3600000))) 0 broken_engine))
       = persisted broken_engine"
proof -
  have a: "idb_error broken_engine = Some (StoreError ''open failed'')"
    by (simp add: broken_engine_def idle_engine_def)
  have b: "truthy (cacheTTL (persist_policy (Some 3600000)))"
    by (simp add: truthy_def persist_policy_def)
  from a b store_set_persistence_failure [OF a b, of 0] show ?thesis
    by (intro conjI) simp_all
qed

text \<open>The statement of the specification fails: the error reaches the caller, \<open>onSet\<close> is not called and
  nothing is logged.\<close>

theorem store_set_persistence_failure_counterexample:
  "fst (store_set (Some (persist_policy (Some 3600000))) 0 broken_engine) = Some (StoreError ''open failed'')
   \<and> fired (snd (store_set (Some (persist_policy (Some 3600000))) 0 broken_engine)) = []
   \<and> logged (snd (store_set (Some (persist_policy (Some 3600000))) 0 broken_engine)) = []"
  by code_simp

text \<open>Whatever the database holds, \<open>loadFromCacheIfValid\<close> finds no \<open>config\<close> in what
  it loaded and resolves to false at its first test: it changes nothing.\<close>

lemma loadFromCacheIfValid_changes_nothing:
  "idb_error e = None \<Longrightarrow> loadFromCacheIfValid now e = (Inr False, e)"
  by (simp add: loadFromCacheIfValid_def loadConfigFromIndexedDB_def get_request_def)

text \<open>
  C9. The database holds a policy with a \<open>cacheTTL\<close> of 3600000 ms saved at time 1000, and
  the worker starts at time 2000, so \<open>savedAt + cacheTTL > now\<close>: \<open>loadFromCacheIfValid\<close>
  resolves to false, adopts nothing and schedules nothing. With a \<open>cacheTTL\<close> of 500 ms
  the record has expired at time 2000: it resolves to false and the record is still in
  the database.
\<close>

theorem loadFromCacheIfValid_never_adopts:
  "persisted (restarted (Some 3600000))
     = Some \<lparr> sconfig = Some (persist_policy (Some 3600000)), savedAt = Some 1000 \<rparr>
   \<and> fst (loadFromCacheIfValid 2000 (restarted (Some 3600000))) = Inr False
   \<and> current (snd (loadFromCacheIfValid 2000 (restarted (Some 3600000)))) = None
   \<and> timers (snd (loadFromCacheIfValid 2000 (restarted (Some 3600000)))) = []
   \<and> fired (snd (loadFromCacheIfValid 2000 (restarted (Some 3600000)))) = []
   \<and> fst (loadFromCacheIfValid 2000 (restarted (Some 500))) = Inr False
   \<and> persisted (snd (loadFromCacheIfValid 2000 (restarted (Some 500))))
       = Some \<lparr> sconfig = Some (persist_policy (Some 500)), savedAt = Some 1000 \<rparr>"
  by code_simp

section \<open>Disconnection\<close>

lemma foldl_cache_delete_subset:
  "set (foldl cache_delete c ks) \<subseteq> set c"
proof (induction ks arbitrary: c)
  case Nil
  then show ?case by simp
next
  case (Cons k ks)
  have "set (foldl cache_delete (cache_delete c k) ks) \<subseteq> set (cache_delete c k)"
    by (rule Cons.IH)
  also have "\<dots> \<subseteq> set c"
    by (auto simp: cache_delete_def)
  finally show ?case by simp
qed

lemma foldl_cache_delete_removes:
  assumes "fst entry \<in> set ks" and "method (fst entry) = ''GET''"
  shows "entry \<notin> set (foldl cache_delete c ks)"
  using assms(1)
proof (induction ks arbitrary: c)
  case Nil
  then show ?case by simp
next
  case (Cons a ks)
  show ?case
  proof (cases "a = fst entry")
    case True
    have "set (foldl cache_delete (cache_delete c a) ks) \<subseteq> set (cache_delete c a)"
      by (rule foldl_cache_delete_subset)
    moreover have "entry \<notin> set (cache_delete c a)"
      using assms(2) True by (simp add: cache_delete_def request_matches_self)
    ultimately show ?thesis
      by auto
  next
    case False
    with Cons.prems have "fst entry \<in> set ks" by simp
    from Cons.IH [OF this] show ?thesis by simp
  qed
qed

lemma clear_empties:
  assumes "list_all (\<lambda>k. method k = ''GET'') (cache_keys (cache e))"
  shows "cache (clear e) = []"
proof (rule ccontr)
  assume "cache (clear e) \<noteq> []"
  then obtain entry rest where "cache (clear e) = entry # rest"
    by (cases "cache (clear e)") simp_all
  then have "entry \<in> set (cache (clear e))"
    by simp
  then have m: "entry \<in> set (foldl cache_delete (cache e) (cache_keys (cache e)))"
    by (simp add: clear_def)
  with foldl_cache_delete_subset have "entry \<in> set (cache e)"
    by blast
  then have k: "fst entry \<in> set (cache_keys (cache e))"
    by (simp add: cache_keys_def)
  with assms have "method (fst entry) = ''GET''"
    by (simp add: list_all_iff)
  from foldl_cache_delete_removes [OF k this] m show False
    by blast
qed


text \<open>
  C6 (amended). On a stream disconnect, with the database available, the handler
  \<open>onDisconnect\<close> resets the policy store to \<open>null\<close>, which deletes the persisted policy
  record and calls, without awaiting it, the reset callback. The handler then starts the
  fallback polling, before the callback has run: the response store still has its
  entries at that point. The callback, once it runs, deletes every entry of the response
  store. So a disconnect alone discards the persisted policy and all cached responses.
\<close>

theorem onDisconnect_discards:
  assumes "idb_error e = None"
    and "list_all (\<lambda>k. method k = ''GET'') (cache_keys (cache e))"
  shows "fst (onDisconnect now e) = None
       \<and> current (snd (onDisconnect now e)) = None
       \<and> persisted (snd (onDisconnect now e)) = None
       \<and> fired (snd (onDisconnect now e)) = fired e @ [OnReset]
       \<and> polling (snd (onDisconnect now e)) = map_option (\<lambda>running. True) (polling e)
       \<and> cache (snd (onDisconnect now e)) = cache e
       \<and> cache (onReset (snd (onDisconnect now e))) = []"
proof -
  have r: "onDisconnect now e =
      (None, polling_start (fire OnReset ((clearScheduledCleanup e)\<lparr>current := None, persisted := None\<rparr>)))"
    using assms(1)
    by (simp add: onDisconnect_def reset_def store_set_def clearConfigFromIndexedDB_def
          clearScheduledCleanup_def Let_def split: option.splits)
  have c: "cache (snd (onDisconnect now e)) = cache e"
    unfolding r by (simp add: polling_start_def fire_def clearScheduledCleanup_def split: option.splits)
  have "cache (clear (snd (onDisconnect now e))) = []"
    by (rule clear_empties) (simp add: c assms(2))
  then have z: "cache (onReset (snd (onDisconnect now e))) = []"
    by (simp add: onReset_def polling_stop_def split: option.splits)
  show ?thesis
    using c z unfolding r
    by (simp add: polling_start_def fire_def clearScheduledCleanup_def split: option.splits)
qed


theorem onDisconnect_discards_witness:
  "idb_error (with_entry ttl_policy get_users_key ''0'') = None
   \<and> list_all (\<lambda>k. method k = ''GET'') (cache_keys (cache (with_entry ttl_policy get_users_key ''0'')))
   \<and> fst (onDisconnect 0 (with_entry ttl_policy get_users_key ''0'')) = None
   \<and> current (snd (onDisconnect 0 (with_entry ttl_policy get_users_key ''0''))) = None
   \<and> persisted (snd (onDisconnect 0 (with_entry ttl_policy get_users_key ''0''))) = None
   \<and> cache (onReset (snd (onDisconnect 0 (with_entry ttl_policy get_users_key ''0'')))) = []"
proof -
  let ?e = "with_entry ttl_policy get_users_key ''0''"
  have a: "idb_error ?e = None"
    by (simp add: with_entry_def idle_engine_def)
  have b: "list_all (\<lambda>k. method k = ''GET'') (cache_keys (cache ?e))"
    by (simp add: with_entry_def cache_keys_def get_users_key_def)
  from a b onDisconnect_discards [OF a b, of 0] show ?thesis
    by (intro conjI) simp_all
qed

text \<open>The order the statement gives fails: when the handler has started the polling,
  the reset callback is still waiting and the stored entry is still there.\<close>

theorem onDisconnect_discards_counterexample:
  "polling (snd (onDisconnect 0 (with_entry ttl_policy get_users_key ''0''))) = Some True
   \<and> fired (snd (onDisconnect 0 (with_entry ttl_policy get_users_key ''0''))) = [OnReset]
   \<and> cache (snd (onDisconnect 0 (with_entry ttl_policy get_users_key ''0'')))
       = [(get_users_key, stored_at ''0'')]"
  by code_simp


text \<open>The reset callback ends by stopping the polling manager.\<close>

lemma onReset_stops_polling:
  "polling (onReset e) = map_option (\<lambda>running. False) (polling e)"
  by (simp add: onReset_def polling_stop_def clear_def split: option.splits)


end
